theory Spec2Isabelle
  imports Complex_Main
begin

section \<open>JavaScript values\<close>

text \<open>
  The service works on untyped JavaScript data (\<open>any\<close>). Values that are only read
  (the validation errors and the document handed to \<open>generateFixes\<close>) are modelled as
  trees. A number is an IEEE double: the finite doubles are rationals, and the source only
  compares numbers and truncates them (it never adds or multiplies), so a finite number is a
  \<open>rat\<close>; negative zero is identified with zero (nothing in the source tells them apart).
  A string is the list of its UTF-16 code units, each a \<open>char\<close>, so the model has the
  code units below 256. An object is the list of its own data properties in the order they
  were created (JavaScript lists integer-like keys first, which only shows in printed
  JSON). Names that JavaScript resolves on a prototype or as a built-in slot
  (\<open>__proto__\<close>, \<open>constructor\<close>, \<open>length\<close>, string indices) are outside the model: the
  model reads them as absent.
\<close>

datatype jnum = NaN | PosInf | NegInf | Fin rat

datatype jv =
    JUndefined
  | JNull
  | JBool bool
  | JNum jnum
  | JStr string
  | JArr "jv list"
  | JObj "(string \<times> jv) list"

datatype exn = TypeError | SyntaxError

type_synonym 'a result = "exn + 'a"

text \<open>
  Built-ins of the language whose results depend on the double-precision number grammar and
  printing are parameters of the model: \<open>StringToNumber\<close> is the numeric parse of text
  (\<open>Number(s)\<close>), \<open>NumberToString\<close> is \<open>String(n)\<close> on a number, and \<open>JSON_pretty\<close> is
  \<open>JSON.stringify(v, null, 2)\<close> on a value that is not \<open>undefined\<close>.
\<close>

record builtins =
  StringToNumber :: "string \<Rightarrow> jnum"
  NumberToString :: "jnum \<Rightarrow> string"
  JSON_pretty :: "jv \<Rightarrow> string"

fun bindR :: "'a result \<Rightarrow> ('a \<Rightarrow> 'b result) \<Rightarrow> 'b result" where
  "bindR (Inl e) f = Inl e"
| "bindR (Inr x) f = f x"

fun truthy :: "jv \<Rightarrow> bool" where
  "truthy JUndefined = False"
| "truthy JNull = False"
| "truthy (JBool b) = b"
| "truthy (JNum n) = (n \<noteq> NaN \<and> n \<noteq> Fin 0)"
| "truthy (JStr s) = (s \<noteq> [])"
| "truthy (JArr xs) = True"
| "truthy (JObj ps) = True"

text \<open>\<open>typeof v === 'object'\<close>, which holds of \<open>null\<close> too.\<close>

fun typeofObject :: "jv \<Rightarrow> bool" where
  "typeofObject JNull = True"
| "typeofObject (JArr xs) = True"
| "typeofObject (JObj ps) = True"
| "typeofObject v = False"

fun isArray :: "jv \<Rightarrow> bool" where
  "isArray (JArr xs) = True"
| "isArray v = False"

fun joinWith :: "string \<Rightarrow> string list \<Rightarrow> string" where
  "joinWith sep [] = []"
| "joinWith sep [s] = s"
| "joinWith sep (s # t # ss) = s @ sep @ joinWith sep (t # ss)"

text \<open>\<open>String(v)\<close> and template interpolation: an array prints its elements joined by
  commas, with \<open>null\<close> and \<open>undefined\<close> elements empty; a plain object prints as
  \<open>[object Object]\<close>.\<close>

fun ToString :: "builtins \<Rightarrow> jv \<Rightarrow> string" where
  "ToString B JUndefined = ''undefined''"
| "ToString B JNull = ''null''"
| "ToString B (JBool b) = (if b then ''true'' else ''false'')"
| "ToString B (JNum n) = NumberToString B n"
| "ToString B (JStr s) = s"
| "ToString B (JArr xs) =
     joinWith '','' (map (\<lambda>x. if x = JUndefined \<or> x = JNull then [] else ToString B x) xs)"
| "ToString B (JObj ps) = ''[object Object]''"

text \<open>\<open>Number(v)\<close>: an object or array is first turned into its string.\<close>

fun ToNumber :: "builtins \<Rightarrow> jv \<Rightarrow> jnum" where
  "ToNumber B JUndefined = NaN"
| "ToNumber B JNull = Fin 0"
| "ToNumber B (JBool b) = (if b then Fin 1 else Fin 0)"
| "ToNumber B (JNum n) = n"
| "ToNumber B (JStr s) = StringToNumber B s"
| "ToNumber B (JArr xs) = StringToNumber B (ToString B (JArr xs))"
| "ToNumber B (JObj ps) = StringToNumber B (ToString B (JObj ps))"

text \<open>The comparison \<open>a < b\<close> on numbers: false as soon as one side is \<open>NaN\<close>.\<close>

fun jlt :: "jnum \<Rightarrow> jnum \<Rightarrow> bool" where
  "jlt NaN b = False"
| "jlt a NaN = False"
| "jlt PosInf b = False"
| "jlt a PosInf = True"
| "jlt a NegInf = False"
| "jlt NegInf b = True"
| "jlt (Fin x) (Fin y) = (x < y)"

text \<open>\<open>ToIntegerOrInfinity\<close>: truncation towards zero, \<open>NaN\<close> to zero. A result
  is \<open>Inl True\<close> for plus infinity, \<open>Inl False\<close> for minus infinity.\<close>

fun ToIntegerOrInfinity :: "jnum \<Rightarrow> bool + int" where
  "ToIntegerOrInfinity NaN = Inr 0"
| "ToIntegerOrInfinity PosInf = Inl True"
| "ToIntegerOrInfinity NegInf = Inl False"
| "ToIntegerOrInfinity (Fin q) = Inr (if 0 \<le> q then \<lfloor>q\<rfloor> else \<lceil>q\<rceil>)"

text \<open>\<open>xs.slice(0, end)\<close>: a negative end counts from the back.\<close>

definition slice0 :: "builtins \<Rightarrow> 'a list \<Rightarrow> jv \<Rightarrow> 'a list" where
  "slice0 B xs e =
     (if e = JUndefined then xs
      else case ToIntegerOrInfinity (ToNumber B e) of
             Inl True \<Rightarrow> xs
           | Inl False \<Rightarrow> []
           | Inr k \<Rightarrow> if k < 0 then take (nat (int (length xs) + k)) xs else take (nat k) xs)"

text \<open>\<open>s.substring(0, end)\<close>: the end is clamped to \<open>0..length\<close>.\<close>

definition substring0 :: "builtins \<Rightarrow> string \<Rightarrow> jv \<Rightarrow> string" where
  "substring0 B s e =
     (if e = JUndefined then s
      else case ToIntegerOrInfinity (ToNumber B e) of
             Inl True \<Rightarrow> s
           | Inl False \<Rightarrow> []
           | Inr k \<Rightarrow> take (nat k) s)"

text \<open>\<open>s.toLowerCase()\<close> on the ASCII letters.\<close>

definition lowerChar :: "char \<Rightarrow> char" where
  "lowerChar c =
     (let n = of_char c :: nat in if 65 \<le> n \<and> n \<le> 90 then char_of (n + 32) else c)"

definition toLowerCase :: "string \<Rightarrow> string" where
  "toLowerCase s = map lowerChar s"

subsection \<open>Property access\<close>

definition isDigit :: "char \<Rightarrow> bool" where
  "isDigit c = (let n = of_char c :: nat in 48 \<le> n \<and> n \<le> 57)"

text \<open>The test \<open>/^\d+$/\<close>.\<close>

definition isDigits :: "string \<Rightarrow> bool" where
  "isDigits s = (s \<noteq> [] \<and> list_all isDigit s)"

text \<open>\<open>parseInt\<close> on a string of digits. The source compares the result with array
  lengths only; rounding to a double keeps every such comparison (lengths are below
  \<open>2^32\<close>), so the exact value is used.\<close>

definition parseInt :: "string \<Rightarrow> nat" where
  "parseInt s = foldl (\<lambda>acc c. 10 * acc + (of_char c - 48)) 0 s"

text \<open>A property key addresses an array element when it is a canonical index: digits
  without a leading zero.\<close>

definition canonicalIndex :: "string \<Rightarrow> nat option" where
  "canonicalIndex s =
     (if isDigits s \<and> (s = ''0'' \<or> hd s \<noteq> CHR ''0'') then Some (parseInt s) else None)"

definition nthOrUndefined :: "jv list \<Rightarrow> nat \<Rightarrow> jv" where
  "nthOrUndefined xs i = (if i < length xs then xs ! i else JUndefined)"

definition lookupProp :: "(string \<times> jv) list \<Rightarrow> string \<Rightarrow> jv" where
  "lookupProp ps k = (case map_of ps k of None \<Rightarrow> JUndefined | Some v \<Rightarrow> v)"

text \<open>\<open>v[k]\<close> on a value that is neither \<open>null\<close> nor \<open>undefined\<close>.\<close>

fun getProp :: "jv \<Rightarrow> string \<Rightarrow> jv" where
  "getProp (JObj ps) k = lookupProp ps k"
| "getProp (JArr xs) k = (case canonicalIndex k of None \<Rightarrow> JUndefined | Some i \<Rightarrow> nthOrUndefined xs i)"
| "getProp v k = JUndefined"

text \<open>\<open>v.k\<close>: a \<open>TypeError\<close> on \<open>null\<close> and \<open>undefined\<close>.\<close>

definition getMember :: "jv \<Rightarrow> string \<Rightarrow> jv result" where
  "getMember v k = (if v = JUndefined \<or> v = JNull then Inl TypeError else Inr (getProp v k))"

text \<open>\<open>v?.k\<close>: \<open>undefined\<close> on \<open>null\<close> and \<open>undefined\<close>.\<close>

definition optMember :: "jv \<Rightarrow> string \<Rightarrow> jv" where
  "optMember v k = (if v = JUndefined \<or> v = JNull then JUndefined else getProp v k)"

section \<open>Errors, fixes and paths\<close>

text \<open>A validation error is read through the fields the service recognises. An absent
  field of type \<open>any\<close> is \<open>JUndefined\<close>.\<close>

record verror =
  keyword :: string
  instancePath :: "string option"
  dataPath :: "string option"
  params :: jv
  schema :: jv
  parentSchema :: jv
  message :: jv

datatype operation = Add | Remove | Replace | Set

text \<open>The suggestion of a fix, over the kind of value it carries (a tree, or a value of
  the store). Its \<open>path\<close> is the field \<open>spath\<close>, the name \<open>path\<close> being the field of
  \<open>ConfigFix\<close>. An absent \<open>value\<close> or \<open>oldValue\<close> is the undefined value.\<close>

record 'v suggestion =
  operation :: operation
  spath :: string
  "value" :: 'v
  oldValue :: 'v

text \<open>\<open>ConfigFix\<close> without its \<open>id\<close>, which is built from the clock and a random
  number and is never read by the service.\<close>

record 'v ConfigFix =
  error :: verror
  path :: string
  description :: string
  suggestion :: "'v suggestion"

text \<open>\<open>p.split('/')\<close>: the pieces between the slashes, empty pieces included.\<close>

fun splitSlash :: "string \<Rightarrow> string \<Rightarrow> string list" where
  "splitSlash acc [] = [rev acc]"
| "splitSlash acc (c # cs) =
     (if c = CHR ''/'' then rev acc # splitSlash [] cs else splitSlash (c # acc) cs)"

text \<open>\<open>p.split('/').filter((p) => p)\<close>.\<close>

definition pathParts :: "string \<Rightarrow> string list" where
  "pathParts p = filter (\<lambda>s. s \<noteq> []) (splitSlash [] p)"

definition getErrorPath :: "verror \<Rightarrow> string" where
  "getErrorPath e =
     (case instancePath e of
        Some p \<Rightarrow> if p \<noteq> [] then p
                  else (case dataPath e of Some d \<Rightarrow> d | None \<Rightarrow> [])
      | None \<Rightarrow> (case dataPath e of Some d \<Rightarrow> d | None \<Rightarrow> []))"

section \<open>The fix synthesiser\<close>

definition convertType :: "builtins \<Rightarrow> jv \<Rightarrow> jv \<Rightarrow> jv" where
  "convertType B v expectedType =
     (if expectedType = JStr ''string'' then JStr (ToString B v)
      else if expectedType = JStr ''number'' then
        (let num = ToNumber B v in if num = NaN then JUndefined else JNum num)
      else if expectedType = JStr ''boolean'' then
        (case v of JStr s \<Rightarrow> JBool (toLowerCase s = ''true'') | _ \<Rightarrow> JBool (truthy v))
      else if expectedType = JStr ''array'' then
        (if isArray v then v else JArr [v])
      else if expectedType = JStr ''object'' then
        (if typeofObject v \<and> v \<noteq> JNull then v else JObj [])
      else JUndefined)"

definition typeDefault :: "jv \<Rightarrow> jv" where
  "typeDefault t =
     (if t = JStr ''string'' then JStr []
      else if t = JStr ''number'' then JNum (Fin 0)
      else if t = JStr ''boolean'' then JBool False
      else if t = JStr ''array'' then JArr []
      else if t = JStr ''object'' then JObj []
      else JNull)"

definition getDefaultValue :: "verror \<Rightarrow> string \<Rightarrow> jv" where
  "getDefaultValue e propertyName =
     (if optMember (schema e) ''default'' \<noteq> JUndefined then optMember (schema e) ''default''
      else if optMember (optMember (optMember (parentSchema e) ''properties'') propertyName)
                ''default'' \<noteq> JUndefined
        then optMember (optMember (optMember (parentSchema e) ''properties'') propertyName)
                ''default''
      else typeDefault
             (if truthy (optMember (params e) ''type'') then optMember (params e) ''type''
              else optMember (schema e) ''type''))"

text \<open>The loop of \<open>generateFixForError\<close> that walks to the value at the path: an array
  is indexed by \<open>parseInt\<close> of a segment of digits, anything else by the segment as a
  key, and the walk ends with \<open>undefined\<close> at a value that is falsy or not an object.\<close>

fun navigate :: "jv \<Rightarrow> string list \<Rightarrow> jv" where
  "navigate cur [] = cur"
| "navigate cur (part # parts) =
     (if truthy cur \<and> typeofObject cur then
        (case cur of
           JArr xs \<Rightarrow>
             if isDigits part then navigate (nthOrUndefined xs (parseInt part)) parts
             else navigate (getProp cur part) parts
         | _ \<Rightarrow> navigate (getProp cur part) parts)
      else JUndefined)"

definition quote :: string where
  "quote = [char_of (34 :: nat)]"

definition mkFix :: "verror \<Rightarrow> string \<Rightarrow> string \<Rightarrow> jv suggestion \<Rightarrow> jv ConfigFix" where
  "mkFix e p d s = \<lparr>error = e, path = p, description = d, suggestion = s\<rparr>"

definition childPath :: "string \<Rightarrow> string \<Rightarrow> string" where
  "childPath p name = (if p \<noteq> [] then p @ ''/'' @ name else ''/'' @ name)"

text \<open>\<open>pathParts[pathParts.length - 1] || ''\<close>.\<close>

definition lastPartOrEmpty :: "string list \<Rightarrow> string" where
  "lastPartOrEmpty ps = (if ps = [] then [] else last ps)"


definition sug :: "operation \<Rightarrow> string \<Rightarrow> jv \<Rightarrow> jv \<Rightarrow> jv suggestion" where
  "sug opn p v old = \<lparr>operation = opn, spath = p, value = v, oldValue = old\<rparr>"

text \<open>The cases of the \<open>switch\<close> in \<open>generateFixForError\<close>, one definition each;
  \<open>cur\<close> is the value the walk reached and \<open>p\<close> the error's path.\<close>

definition fixRequired :: "builtins \<Rightarrow> verror \<Rightarrow> string \<Rightarrow> (jv ConfigFix option) result" where
  "fixRequired B e p =
     bindR (getMember (params e) ''missingProperty'') (\<lambda>missingProperty.
       Inr (Some (mkFix e p
         (''Missing required property '' @ quote @ ToString B missingProperty @ quote
            @ ''. Add with default value.'')
         (sug Add (childPath p (ToString B missingProperty))
            (getDefaultValue e (ToString B missingProperty)) JUndefined))))"

definition fixType :: "builtins \<Rightarrow> verror \<Rightarrow> string \<Rightarrow> jv \<Rightarrow> (jv ConfigFix option) result" where
  "fixType B e p cur =
     bindR (getMember (params e) ''type'') (\<lambda>expectedType.
       let convertedValue = convertType B cur expectedType in
       if convertedValue \<noteq> JUndefined then
         Inr (Some (mkFix e p
           (''Property has wrong type (expected '' @ ToString B expectedType
              @ ''). Convert value.'')
           (sug Replace p convertedValue cur)))
       else
         Inr (Some (mkFix e p
           (''Property has wrong type (expected '' @ ToString B expectedType
              @ ''). Set to default value.'')
           (sug Replace p (getDefaultValue e (lastPartOrEmpty (pathParts p))) cur))))"

definition fixAdditionalProperties ::
  "builtins \<Rightarrow> verror \<Rightarrow> string \<Rightarrow> jv \<Rightarrow> (jv ConfigFix option) result" where
  "fixAdditionalProperties B e p cur =
     bindR (getMember (params e) ''additionalProperty'') (\<lambda>invalidProperty.
       Inr (Some (mkFix e p
         (''Invalid property '' @ quote @ ToString B invalidProperty @ quote
            @ '' is not allowed. Remove it.'')
         (sug Remove (childPath p (ToString B invalidProperty)) JUndefined
            (optMember cur (ToString B invalidProperty))))))"

definition fixMaxItems :: "builtins \<Rightarrow> verror \<Rightarrow> string \<Rightarrow> jv \<Rightarrow> (jv ConfigFix option) result" where
  "fixMaxItems B e p cur =
     (case cur of
        JArr xs \<Rightarrow>
          bindR (getMember (params e) ''limit'') (\<lambda>limit.
            if jlt (ToNumber B limit) (Fin (of_nat (length xs))) then
              Inr (Some (mkFix e p
                (''Array has too many items (max '' @ ToString B limit
                   @ ''). Remove excess items.'')
                (sug Replace p (JArr (slice0 B xs limit)) cur)))
            else Inr None)
      | _ \<Rightarrow> Inr None)"

definition fixMaxLength :: "builtins \<Rightarrow> verror \<Rightarrow> string \<Rightarrow> jv \<Rightarrow> (jv ConfigFix option) result" where
  "fixMaxLength B e p cur =
     (case cur of
        JStr s \<Rightarrow>
          bindR (getMember (params e) ''limit'') (\<lambda>limit.
            if jlt (ToNumber B limit) (Fin (of_nat (length s))) then
              Inr (Some (mkFix e p
                (''String is too long (max '' @ ToString B limit @ '' characters). Truncate.'')
                (sug Replace p (JStr (substring0 B s limit)) cur)))
            else Inr None)
      | _ \<Rightarrow> Inr None)"

definition fixMinimum :: "builtins \<Rightarrow> verror \<Rightarrow> string \<Rightarrow> jv \<Rightarrow> (jv ConfigFix option) result" where
  "fixMinimum B e p cur =
     (case cur of
        JNum n \<Rightarrow>
          bindR (getMember (params e) ''limit'') (\<lambda>limit.
            if jlt n (ToNumber B limit) then
              Inr (Some (mkFix e p
                (''Value is too small (minimum '' @ ToString B limit @ ''). Set to minimum.'')
                (sug Replace p limit cur)))
            else Inr None)
      | _ \<Rightarrow> Inr None)"

definition fixMaximum :: "builtins \<Rightarrow> verror \<Rightarrow> string \<Rightarrow> jv \<Rightarrow> (jv ConfigFix option) result" where
  "fixMaximum B e p cur =
     (case cur of
        JNum n \<Rightarrow>
          bindR (getMember (params e) ''limit'') (\<lambda>limit.
            if jlt (ToNumber B limit) n then
              Inr (Some (mkFix e p
                (''Value is too large (maximum '' @ ToString B limit @ ''). Set to maximum.'')
                (sug Replace p limit cur)))
            else Inr None)
      | _ \<Rightarrow> Inr None)"

text \<open>\<open>minItems\<close> and \<open>minLength\<close> build a description from \<open>error.params.limit\<close> and
  return \<open>null\<close>.\<close>

definition fixNoLimit :: "verror \<Rightarrow> (jv ConfigFix option) result" where
  "fixNoLimit e = bindR (getMember (params e) ''limit'') (\<lambda>limit. Inr None)"

text \<open>\<open>enum\<close> calls \<open>error.params.allowedValues.join(', ')\<close> and returns \<open>null\<close>: the
  call is a \<open>TypeError\<close> unless \<open>allowedValues\<close> is an array.\<close>

definition fixEnum :: "verror \<Rightarrow> (jv ConfigFix option) result" where
  "fixEnum e =
     bindR (getMember (params e) ''allowedValues'') (\<lambda>allowedValues.
       if isArray allowedValues then Inr None else Inl TypeError)"

definition generateFixForError ::
  "builtins \<Rightarrow> verror \<Rightarrow> jv \<Rightarrow> string \<Rightarrow> (jv ConfigFix option) result" where
  "generateFixForError B e config p =
     (let currentValue = navigate config (pathParts p) in
      if keyword e = ''required'' then fixRequired B e p
      else if keyword e = ''type'' then fixType B e p currentValue
      else if keyword e = ''additionalProperties'' then fixAdditionalProperties B e p currentValue
      else if keyword e = ''minItems'' then fixNoLimit e
      else if keyword e = ''maxItems'' then fixMaxItems B e p currentValue
      else if keyword e = ''minLength'' then fixNoLimit e
      else if keyword e = ''maxLength'' then fixMaxLength B e p currentValue
      else if keyword e = ''minimum'' then fixMinimum B e p currentValue
      else if keyword e = ''maximum'' then fixMaximum B e p currentValue
      else if keyword e = ''enum'' then fixEnum e
      else Inr None)"

definition pathKey :: "verror \<Rightarrow> string" where
  "pathKey e = keyword e @ '':'' @ getErrorPath e"

text \<open>The loop of \<open>generateFixes\<close>, with the list of fixes and the set of processed keys
  as they stand; an exception of \<open>generateFixForError\<close> leaves the loop and the function.\<close>

fun generateFixesLoop ::
  "builtins \<Rightarrow> jv \<Rightarrow> verror list \<Rightarrow> jv ConfigFix list \<Rightarrow> string set \<Rightarrow> (jv ConfigFix list) result"
where
  "generateFixesLoop B config [] fixes processedPaths = Inr fixes"
| "generateFixesLoop B config (e # es) fixes processedPaths =
     (if pathKey e \<in> processedPaths then generateFixesLoop B config es fixes processedPaths
      else case generateFixForError B e config (getErrorPath e) of
             Inl x \<Rightarrow> Inl x
           | Inr None \<Rightarrow> generateFixesLoop B config es fixes processedPaths
           | Inr (Some fix) \<Rightarrow>
               generateFixesLoop B config es (fixes @ [fix]) (insert (pathKey e) processedPaths))"

definition generateFixes :: "builtins \<Rightarrow> verror list \<Rightarrow> jv \<Rightarrow> (jv ConfigFix list) result" where
  "generateFixes B errors config = generateFixesLoop B config errors [] {}"


section \<open>The patch applicator, on a store of objects\<close>

text \<open>
  \<open>applyFix\<close> copies the document and then assigns into the copy, so what it changes
  depends on which objects are shared. Here an array or object is a cell of a store and a
  value refers to it by address; an address is an index into the store, and allocation
  appends a cell. An array carries its elements and, as JavaScript allows, named properties.
  The properties of a cell are listed in the order they were created.

  A cell holds own properties only. The definitions of this section are the source on the
  path segments that JavaScript resolves on the own properties of an object: they are not
  the source on a segment that names a property of \<open>Object.prototype\<close> or
  \<open>Array.prototype\<close> or the \<open>length\<close> of an array (\<open>builtinName\<close> below), where the
  source reads or writes the prototype (\<open>__proto__\<close>), reads a built-in method, or changes
  or refuses to delete an array's length. A property stated of the source through these
  definitions assumes a path without such a segment (\<open>plainPath\<close>), in a realm whose
  prototypes are as the engine made them.
\<close>

text \<open>The string-keyed properties of \<open>Object.prototype\<close> and \<open>Array.prototype\<close> in
  ECMAScript 2023 (Annex B included), and \<open>length\<close>.\<close>

definition builtinNames :: "string list" where
  "builtinNames =
     [''__proto__'', ''constructor'', ''hasOwnProperty'', ''isPrototypeOf'',
      ''propertyIsEnumerable'', ''toLocaleString'', ''toString'', ''valueOf'',
      ''__defineGetter__'', ''__defineSetter__'', ''__lookupGetter__'', ''__lookupSetter__'',
      ''length'', ''at'', ''concat'', ''copyWithin'', ''entries'', ''every'', ''fill'',
      ''filter'', ''find'', ''findIndex'', ''findLast'', ''findLastIndex'', ''flat'',
      ''flatMap'', ''forEach'', ''includes'', ''indexOf'', ''join'', ''keys'',
      ''lastIndexOf'', ''map'', ''pop'', ''push'', ''reduce'', ''reduceRight'', ''reverse'',
      ''shift'', ''slice'', ''some'', ''sort'', ''splice'', ''toReversed'', ''toSorted'',
      ''toSpliced'', ''unshift'', ''values'', ''with'']"

definition builtinName :: "string \<Rightarrow> bool" where
  "builtinName s = (s \<in> set builtinNames)"

definition plainPath :: "string list \<Rightarrow> bool" where
  "plainPath parts = list_all (\<lambda>s. \<not> builtinName s) parts"

datatype hval = HUndefined | HNull | HBool bool | HNum jnum | HStr string | HRef nat

datatype hobj =
    HArr "hval list" "(string \<times> hval) list"
  | HMap "(string \<times> hval) list"

type_synonym heap = "hobj list"

fun sequenceR :: "'a result list \<Rightarrow> 'a list result" where
  "sequenceR [] = Inr []"
| "sequenceR (r # rs) = bindR r (\<lambda>x. bindR (sequenceR rs) (\<lambda>xs. Inr (x # xs)))"

text \<open>
  \<open>JSON.stringify\<close>, giving the tree of the text it writes: a non-finite number and an
  \<open>undefined\<close> element of an array become \<open>null\<close>, a property whose value is
  \<open>undefined\<close> and the named properties of an array are left out, and a cyclic value is a
  \<open>TypeError\<close> (as is, in the model, a reference to no cell of the store). The
  first argument bounds the nesting depth: a chain of more references than the store has
  cells repeats a cell, so from depth \<open>length h\<close> running out means a cycle. The result
  \<open>JUndefined\<close> stands for a call that writes no text.
\<close>

fun stringifyTree :: "nat \<Rightarrow> heap \<Rightarrow> hval \<Rightarrow> jv result" where
  "stringifyTree n h HUndefined = Inr JUndefined"
| "stringifyTree n h HNull = Inr JNull"
| "stringifyTree n h (HBool b) = Inr (JBool b)"
| "stringifyTree n h (HNum x) = Inr (case x of Fin q \<Rightarrow> JNum (Fin q) | _ \<Rightarrow> JNull)"
| "stringifyTree n h (HStr s) = Inr (JStr s)"
| "stringifyTree 0 h (HRef a) = Inl TypeError"
| "stringifyTree (Suc n) h (HRef a) =
     (if a < length h then
        (case h ! a of
           HArr xs ps \<Rightarrow>
             bindR (sequenceR (map (stringifyTree n h) xs)) (\<lambda>ts.
               Inr (JArr (map (\<lambda>t. if t = JUndefined then JNull else t) ts)))
         | HMap ps \<Rightarrow>
             bindR (sequenceR (map (\<lambda>kv. bindR (stringifyTree n h (snd kv))
                                            (\<lambda>t. Inr (fst kv, t))) ps)) (\<lambda>qs.
               Inr (JObj (filter (\<lambda>kt. snd kt \<noteq> JUndefined) qs))))
      else Inl TypeError)"

definition JSON_stringify :: "heap \<Rightarrow> hval \<Rightarrow> jv result" where
  "JSON_stringify h v = stringifyTree (length h) h v"

text \<open>Building a tree value in the store: the cells of the children first, then the cell
  of the array or object itself, at the next free address.\<close>

fun alloc :: "heap \<Rightarrow> jv \<Rightarrow> heap \<times> hval"
  and allocList :: "heap \<Rightarrow> jv list \<Rightarrow> heap \<times> hval list"
  and allocProps :: "heap \<Rightarrow> (string \<times> jv) list \<Rightarrow> heap \<times> (string \<times> hval) list"
where
  "alloc h JUndefined = (h, HUndefined)"
| "alloc h JNull = (h, HNull)"
| "alloc h (JBool b) = (h, HBool b)"
| "alloc h (JNum x) = (h, HNum x)"
| "alloc h (JStr s) = (h, HStr s)"
| "alloc h (JArr xs) = (case allocList h xs of (h1, vs) \<Rightarrow> (h1 @ [HArr vs []], HRef (length h1)))"
| "alloc h (JObj ps) = (case allocProps h ps of (h1, qs) \<Rightarrow> (h1 @ [HMap qs], HRef (length h1)))"
| "allocList h [] = (h, [])"
| "allocList h (x # xs) =
     (case alloc h x of (h1, v) \<Rightarrow> (case allocList h1 xs of (h2, vs) \<Rightarrow> (h2, v # vs)))"
| "allocProps h [] = (h, [])"
| "allocProps h (kx # ps) =
     (case alloc h (snd kx) of (h1, v) \<Rightarrow>
        (case allocProps h1 ps of (h2, qs) \<Rightarrow> (h2, (fst kx, v) # qs)))"

text \<open>\<open>JSON.parse(JSON.stringify(config))\<close>. When \<open>stringify\<close> writes no text,
  \<open>parse\<close> is handed \<open>undefined\<close> and raises a \<open>SyntaxError\<close>.\<close>

definition jsonClone :: "heap \<Rightarrow> hval \<Rightarrow> (heap \<times> hval) result" where
  "jsonClone h v =
     bindR (JSON_stringify h v) (\<lambda>t.
       if t = JUndefined then Inl SyntaxError else Inr (alloc h t))"


subsection \<open>Reading and assigning properties of a cell\<close>

definition lookupH :: "(string \<times> hval) list \<Rightarrow> string \<Rightarrow> hval" where
  "lookupH ps k = (case map_of ps k of None \<Rightarrow> HUndefined | Some v \<Rightarrow> v)"

fun setProp :: "(string \<times> hval) list \<Rightarrow> string \<Rightarrow> hval \<Rightarrow> (string \<times> hval) list" where
  "setProp [] k v = [(k, v)]"
| "setProp (kv # ps) k v = (if fst kv = k then (k, v) # ps else kv # setProp ps k v)"

definition deleteProp :: "(string \<times> hval) list \<Rightarrow> string \<Rightarrow> (string \<times> hval) list" where
  "deleteProp ps k = filter (\<lambda>kv. fst kv \<noteq> k) ps"

fun namedProps :: "hobj \<Rightarrow> (string \<times> hval) list" where
  "namedProps (HArr xs ps) = ps"
| "namedProps (HMap ps) = ps"

fun withNamedProps :: "hobj \<Rightarrow> (string \<times> hval) list \<Rightarrow> hobj" where
  "withNamedProps (HArr xs ps) qs = HArr xs qs"
| "withNamedProps (HMap ps) qs = HMap qs"

text \<open>\<open>o[k] = v\<close> on the cell at address \<open>a\<close>, for a key that is not an array index.\<close>

definition assignProp :: "heap \<Rightarrow> nat \<Rightarrow> string \<Rightarrow> hval \<Rightarrow> heap" where
  "assignProp h a k v = h[a := withNamedProps (h ! a) (setProp (namedProps (h ! a)) k v)]"

text \<open>\<open>delete o[k]\<close> on the cell at address \<open>a\<close>.\<close>

definition deletePropAt :: "heap \<Rightarrow> nat \<Rightarrow> string \<Rightarrow> heap" where
  "deletePropAt h a k = h[a := withNamedProps (h ! a) (deleteProp (namedProps (h ! a)) k)]"

definition nthOrUndefinedH :: "hval list \<Rightarrow> nat \<Rightarrow> hval" where
  "nthOrUndefinedH xs i = (if i < length xs then xs ! i else HUndefined)"

subsection \<open>\<open>getNestedObject\<close>, \<open>setProperty\<close>, \<open>removeProperty\<close>, \<open>applyFix\<close>\<close>

text \<open>The object branch of one round of the loop of \<open>getNestedObject\<close>, on the cell at
  \<open>a\<close>: when \<open>current[part]\<close> is \<open>undefined\<close> it is either created (an array when the
  next segment is made of digits, an object otherwise) or the walk gives up (\<open>None\<close>);
  then the walk steps to \<open>current[part]\<close>.\<close>

definition stepInto ::
  "heap \<Rightarrow> nat \<Rightarrow> string \<Rightarrow> string list \<Rightarrow> bool \<Rightarrow> (heap \<times> hval) option" where
  "stepInto h a part rest createMissing =
     (if lookupH (namedProps (h ! a)) part = HUndefined then
        (if createMissing then
           Some (assignProp
                   (h @ [if rest \<noteq> [] \<and> isDigits (hd rest) then HArr [] [] else HMap []])
                   a part (HRef (length h)),
                 HRef (length h))
         else None)
      else Some (h, lookupH (namedProps (h ! a)) part))"

fun getNestedObject :: "heap \<Rightarrow> hval \<Rightarrow> string list \<Rightarrow> bool \<Rightarrow> heap \<times> hval" where
  "getNestedObject h current [] createMissing = (h, current)"
| "getNestedObject h current (part # rest) createMissing =
     (case current of
        HRef a \<Rightarrow>
          (if a < length h then
             (case h ! a of
                HArr xs ps \<Rightarrow>
                  (if isDigits part then
                     (if parseInt part < length xs
                      then getNestedObject h (xs ! parseInt part) rest createMissing
                      else (h, HUndefined))
                   else
                     (case stepInto h a part rest createMissing of
                        None \<Rightarrow> (h, HUndefined)
                      | Some (h1, next) \<Rightarrow> getNestedObject h1 next rest createMissing))
              | HMap ps \<Rightarrow>
                  (case stepInto h a part rest createMissing of
                     None \<Rightarrow> (h, HUndefined)
                   | Some (h1, next) \<Rightarrow> getNestedObject h1 next rest createMissing))
           else (h, HUndefined))
      | _ \<Rightarrow> (h, HUndefined))"

definition setProperty :: "heap \<Rightarrow> hval \<Rightarrow> string list \<Rightarrow> hval \<Rightarrow> heap" where
  "setProperty h obj parts v =
     (if parts = [] then h
      else case getNestedObject h obj (butlast parts) True of
        (h1, parent) \<Rightarrow>
          (case parent of
             HRef a \<Rightarrow>
               (if a < length h1 then
                  (case h1 ! a of
                     HArr xs ps \<Rightarrow>
                       (if isDigits (last parts) then
                          (if parseInt (last parts) < length xs
                           then h1[a := HArr (xs[parseInt (last parts) := v]) ps]
                           else if parseInt (last parts) = length xs
                           then h1[a := HArr (xs @ [v]) ps]
                           else h1)
                        else assignProp h1 a (last parts) v)
                   | HMap ps \<Rightarrow> assignProp h1 a (last parts) v)
                else h1)
           | _ \<Rightarrow> h1))"

text \<open>\<open>xs.splice(i, 1)\<close>.\<close>

definition splice1 :: "'a list \<Rightarrow> nat \<Rightarrow> 'a list" where
  "splice1 xs i = take i xs @ drop (Suc i) xs"

definition removeProperty :: "heap \<Rightarrow> hval \<Rightarrow> string list \<Rightarrow> heap" where
  "removeProperty h obj parts =
     (if parts = [] then h
      else case getNestedObject h obj (butlast parts) False of
        (h1, parent) \<Rightarrow>
          (case parent of
             HRef a \<Rightarrow>
               (if a < length h1 then
                  (case h1 ! a of
                     HArr xs ps \<Rightarrow>
                       (if isDigits (last parts)
                        then h1[a := HArr (splice1 xs (parseInt (last parts))) ps]
                        else deletePropAt h1 a (last parts))
                   | HMap ps \<Rightarrow> deletePropAt h1 a (last parts))
                else h1)
           | _ \<Rightarrow> h1))"

text \<open>\<open>applyFix\<close> returns the store after the call and the copy it hands back.\<close>

definition applyFix :: "heap \<Rightarrow> hval \<Rightarrow> hval ConfigFix \<Rightarrow> (heap \<times> hval) result" where
  "applyFix h config fix =
     bindR (jsonClone h config) (\<lambda>(h1, configCopy).
       if operation (suggestion fix) = Remove then
         Inr (removeProperty h1 configCopy (pathParts (spath (suggestion fix))), configCopy)
       else if operation (suggestion fix) = Add \<or> operation (suggestion fix) = Replace
               \<or> operation (suggestion fix) = Set then
         Inr (setProperty h1 configCopy (pathParts (spath (suggestion fix)))
                (value (suggestion fix)), configCopy)
       else Inr (h1, configCopy))"

subsection \<open>\<open>getNestedValue\<close> and \<open>generateDiff\<close>\<close>

fun getNestedValue :: "heap \<Rightarrow> hval \<Rightarrow> string list \<Rightarrow> hval" where
  "getNestedValue h current [] = current"
| "getNestedValue h current (part # rest) =
     (case current of
        HRef a \<Rightarrow>
          (if a < length h then
             (case h ! a of
                HArr xs ps \<Rightarrow>
                  (if isDigits part
                   then getNestedValue h (nthOrUndefinedH xs (parseInt part)) rest
                   else getNestedValue h (lookupH ps part) rest)
              | HMap ps \<Rightarrow> getNestedValue h (lookupH ps part) rest)
           else HUndefined)
      | _ \<Rightarrow> HUndefined)"

record diff =
  before :: string
  after :: string
  dpath :: string

text \<open>\<open>v === undefined ? '(undefined)' : JSON.stringify(v, null, 2)\<close>.\<close>

definition render :: "builtins \<Rightarrow> heap \<Rightarrow> hval \<Rightarrow> string result" where
  "render B h v =
     (if v = HUndefined then Inr ''(undefined)''
      else bindR (JSON_stringify h v) (\<lambda>t. Inr (JSON_pretty B t)))"

text \<open>The value shown as \<open>before\<close>, after the two substitutions for an absent value.\<close>

definition beforeShown :: "hval ConfigFix \<Rightarrow> hval \<Rightarrow> hval" where
  "beforeShown fix beforeValue =
     (if beforeValue = HUndefined then
        (if operation (suggestion fix) = Add then HNull
         else if operation (suggestion fix) = Remove then oldValue (suggestion fix)
         else beforeValue)
      else beforeValue)"

text \<open>\<open>generateDiff\<close>; the copies it makes are not reachable from its result, so only
  the record is returned.\<close>

definition generateDiff :: "builtins \<Rightarrow> heap \<Rightarrow> hval ConfigFix \<Rightarrow> hval \<Rightarrow> diff result" where
  "generateDiff B h fix config =
     bindR (jsonClone h config) (\<lambda>(h1, beforeConfig).
     bindR (applyFix h1 beforeConfig fix) (\<lambda>(h2, afterConfig).
       let parts = pathParts (spath (suggestion fix));
           beforeValue = beforeShown fix (getNestedValue h2 beforeConfig parts);
           afterValue = getNestedValue h2 afterConfig parts
       in bindR (render B h2 beforeValue) (\<lambda>b.
          bindR (render B h2 afterValue) (\<lambda>a.
            Inr \<lparr>before = b, after = a, dpath = spath (suggestion fix)\<rparr>))))"


section \<open>From synthesised fixes to the store, and an instance of the built-ins\<close>

text \<open>A fix of \<open>generateFixes\<close> carries tree values; in the store its \<open>value\<close> and
  \<open>oldValue\<close> are built cell by cell.\<close>

definition allocFix :: "heap \<Rightarrow> jv ConfigFix \<Rightarrow> heap \<times> hval ConfigFix" where
  "allocFix h f =
     (case alloc h (value (suggestion f)) of (h1, v) \<Rightarrow>
        (case alloc h1 (oldValue (suggestion f)) of (h2, ov) \<Rightarrow>
           (h2, \<lparr>error = error f, path = path f, description = description f,
                 suggestion = \<lparr>operation = operation (suggestion f),
                                spath = spath (suggestion f), value = v, oldValue = ov\<rparr>\<rparr>)))"

text \<open>
  An instance of the built-ins for running examples. It is exact on the inputs the
  examples give it: the empty string and strings of decimal digits for the numeric parse,
  integers below \<open>10^21\<close> in magnitude and the non-finite numbers for printing, and values
  whose strings need no escape for the two-space pretty printer.
\<close>

fun digitsOf :: "nat \<Rightarrow> nat \<Rightarrow> string" where
  "digitsOf 0 n = []"
| "digitsOf (Suc f) n =
     (if n < 10 then [char_of (48 + n)]
      else digitsOf f (n div 10) @ [char_of (48 + n mod 10)])"

definition showNat :: "nat \<Rightarrow> string" where
  "showNat n = digitsOf (Suc n) n"

fun showNum :: "jnum \<Rightarrow> string" where
  "showNum NaN = ''NaN''"
| "showNum PosInf = ''Infinity''"
| "showNum NegInf = ''-Infinity''"
| "showNum (Fin q) = (if q < 0 then ''-'' @ showNat (nat \<lfloor>- q\<rfloor>) else showNat (nat \<lfloor>q\<rfloor>))"

definition parseDigits :: "string \<Rightarrow> jnum" where
  "parseDigits s =
     (if s = [] then Fin 0 else if isDigits s then Fin (of_nat (parseInt s)) else NaN)"

definition newline :: string where
  "newline = [char_of (10 :: nat)]"

fun pretty :: "string \<Rightarrow> jv \<Rightarrow> string" where
  "pretty ind JUndefined = ''null''"
| "pretty ind JNull = ''null''"
| "pretty ind (JBool b) = (if b then ''true'' else ''false'')"
| "pretty ind (JNum n) = (case n of Fin q \<Rightarrow> showNum n | _ \<Rightarrow> ''null'')"
| "pretty ind (JStr s) = quote @ s @ quote"
| "pretty ind (JArr xs) =
     (if xs = [] then ''[]''
      else ''['' @ joinWith '',''
             (map (\<lambda>x. newline @ ind @ ''  '' @ pretty (ind @ ''  '') x) xs)
           @ newline @ ind @ '']'')"
| "pretty ind (JObj ps) =
     (if ps = [] then ''{}''
      else ''{'' @ joinWith '',''
             (map (\<lambda>kx. newline @ ind @ ''  '' @ quote @ fst kx @ quote @ '': ''
                         @ pretty (ind @ ''  '') (snd kx)) ps)
           @ newline @ ind @ ''}'')"

definition sampleBuiltins :: builtins where
  "sampleBuiltins =
     \<lparr>StringToNumber = parseDigits, NumberToString = showNum, JSON_pretty = pretty []\<rparr>"


section \<open>Notions used to state the properties\<close>

text \<open>The dedup key of a fix: the keyword of its error and its path.\<close>

definition fixKey :: "jv ConfigFix \<Rightarrow> string \<times> string" where
  "fixKey f = (keyword (error f), path f)"

text \<open>The values a cell holds, a value that does not refer below address \<open>n\<close>, and a
  value that refers below \<open>n\<close> if it refers at all.\<close>

fun cellVals :: "hobj \<Rightarrow> hval list" where
  "cellVals (HArr xs ps) = xs @ map snd ps"
| "cellVals (HMap ps) = map snd ps"

fun freshVal :: "nat \<Rightarrow> hval \<Rightarrow> bool" where
  "freshVal n (HRef a) = (n \<le> a)"
| "freshVal n v = True"

fun oldVal :: "nat \<Rightarrow> hval \<Rightarrow> bool" where
  "oldVal n (HRef a) = (a < n)"
| "oldVal n v = True"

definition cellsFresh :: "nat \<Rightarrow> hobj list \<Rightarrow> bool" where
  "cellsFresh m ys = list_all (\<lambda>c. list_all (freshVal m) (cellVals c)) ys"

text \<open>The cells from address \<open>n\<close> on refer to no cell below \<open>n\<close>.\<close>

definition closedFrom :: "nat \<Rightarrow> heap \<Rightarrow> bool" where
  "closedFrom n h = cellsFresh n (drop n h)"

text \<open>The store \<open>h\<close> extends \<open>h0\<close> without changing a cell of \<open>h0\<close>, and its new cells
  refer to new cells only: what holds of the store while \<open>applyFix\<close> works on its copy.\<close>

definition copyInv :: "heap \<Rightarrow> heap \<Rightarrow> bool" where
  "copyInv h0 h = (take (length h0) h = h0 \<and> closedFrom (length h0) h)"

text \<open>Every reference in the store is to a cell of the store.\<close>

definition wfHeap :: "heap \<Rightarrow> bool" where
  "wfHeap h = list_all (\<lambda>c. list_all (oldVal (length h)) (cellVals c)) h"

text \<open>A store of JSON-like data: every reference is to a cell of the store, and a rank
  \<open>r\<close> below the size of the store falls along every reference, so no cell reaches
  itself.\<close>

fun refersBelow :: "(nat \<Rightarrow> nat) \<Rightarrow> nat \<Rightarrow> nat \<Rightarrow> hval \<Rightarrow> bool" where
  "refersBelow r n a (HRef b) = (b < n \<and> r b < r a)"
| "refersBelow r n a v = True"

definition soundCell :: "(nat \<Rightarrow> nat) \<Rightarrow> nat \<Rightarrow> nat \<Rightarrow> hobj \<Rightarrow> bool" where
  "soundCell r n a c = (r a < n \<and> list_all (refersBelow r n a) (cellVals c))"

definition soundBy :: "(nat \<Rightarrow> nat) \<Rightarrow> heap \<Rightarrow> bool" where
  "soundBy r h = list_all (\<lambda>a. soundCell r (length h) a (h ! a)) [0..<length h]"






section \<open>Example data\<close>

definition mkError :: "string \<Rightarrow> string \<Rightarrow> jv \<Rightarrow> verror" where
  "mkError kw p ps =
     \<lparr>keyword = kw, instancePath = Some p, dataPath = None, params = ps,
      schema = JUndefined, parentSchema = JUndefined, message = JUndefined\<rparr>"

text \<open>A fix in the store that carries the given suggestion.\<close>

definition fixOf :: "operation \<Rightarrow> string \<Rightarrow> hval \<Rightarrow> hval \<Rightarrow> hval ConfigFix" where
  "fixOf opn p v old =
     \<lparr>error = mkError [] [] JUndefined, path = p, description = [],
      suggestion = \<lparr>operation = opn, spath = p, value = v, oldValue = old\<rparr>\<rparr>"

text \<open>The document \<open>{xs: [1, 2]}\<close>, as a tree and in a store of its own.\<close>

definition docXs :: jv where
  "docXs = JObj [(''xs'', JArr [JNum (Fin 1), JNum (Fin 2)])]"

definition storeXs :: heap where
  "storeXs = fst (alloc [] docXs)"

definition refXs :: hval where
  "refXs = snd (alloc [] docXs)"

text \<open>The document \<open>{s: "abcdef"}\<close> and the error that its string is longer than 3.\<close>

definition docS :: jv where
  "docS = JObj [(''s'', JStr ''abcdef'')]"

definition errMaxLength :: verror where
  "errMaxLength = mkError ''maxLength'' ''/s'' (JObj [(''limit'', JNum (Fin 3))])"

definition fixMaxLengthS :: "jv ConfigFix" where
  "fixMaxLengthS =
     \<lparr>error = errMaxLength, path = ''/s'',
      description = ''String is too long (max 3 characters). Truncate.'',
      suggestion = \<lparr>operation = Replace, spath = ''/s'', value = JStr ''abc'',
                     oldValue = JStr ''abcdef''\<rparr>\<rparr>"


text \<open>The document \<open>{a: {}}\<close>, a \<open>required\<close> error for \<open>b\<close> under \<open>/a\<close>, the fix
  for it, and an \<open>enum\<close> error whose \<open>params\<close> has no \<open>allowedValues\<close>.\<close>

definition docA :: jv where
  "docA = JObj [(''a'', JObj [])]"

definition errRequiredB :: verror where
  "errRequiredB = mkError ''required'' ''/a'' (JObj [(''missingProperty'', JStr ''b'')])"

definition fixRequiredB :: "jv ConfigFix" where
  "fixRequiredB =
     \<lparr>error = errRequiredB, path = ''/a'',
      description = ''Missing required property '' @ quote @ ''b'' @ quote
                    @ ''. Add with default value.'',
      suggestion = \<lparr>operation = Add, spath = ''/a/b'', value = JNull,
                     oldValue = JUndefined\<rparr>\<rparr>"

definition errEnumNoValues :: verror where
  "errEnumNoValues = mkError ''enum'' ''/a'' (JObj [])"

definition errRequiredNoName :: verror where
  "errRequiredNoName = mkError ''required'' ''/a'' (JObj [])"

definition errMinItems :: verror where
  "errMinItems = mkError ''minItems'' ''/s'' (JObj [(''limit'', JNum (Fin 2))])"

text \<open>The document \<open>{n: 5}\<close> and two \<open>maximum\<close> errors at \<open>/n\<close>, with limits 10 and 3.\<close>

definition docN :: jv where
  "docN = JObj [(''n'', JNum (Fin 5))]"

definition errMax10 :: verror where
  "errMax10 = mkError ''maximum'' ''/n'' (JObj [(''limit'', JNum (Fin 10))])"

definition errMax3 :: verror where
  "errMax3 = mkError ''maximum'' ''/n'' (JObj [(''limit'', JNum (Fin 3))])"

definition fixMax3 :: "jv ConfigFix" where
  "fixMax3 =
     \<lparr>error = errMax3, path = ''/n'',
      description = ''Value is too large (maximum 3). Set to maximum.'',
      suggestion = \<lparr>operation = Replace, spath = ''/n'', value = JNum (Fin 3),
                     oldValue = JNum (Fin 5)\<rparr>\<rparr>"




text \<open>A \<open>minItems\<close> error without \<open>params\<close>, and an error with a keyword the service
  does not know, also without \<open>params\<close>.\<close>

definition errMinItemsNoParams :: verror where
  "errMinItemsNoParams = mkError ''minItems'' ''/a'' JUndefined"

definition errUnknownKeyword :: verror where
  "errUnknownKeyword = mkError ''format'' ''/a'' JUndefined"



section \<open>The spec's tables, in its own words\<close>

text \<open>The default-value resolution order of the spec: the violated schema fragment's own
  default if present, else the enclosing schema's declared default for the property name,
  else a built-in default keyed by the type, else \<open>null\<close>. A default is present when it
  is not \<open>undefined\<close>; the type is \<open>params.type\<close>, or the schema fragment's \<open>type\<close> when
  that is missing or falsy.\<close>

definition declaredDefault :: "jv \<Rightarrow> jv option" where
  "declaredDefault s =
     (if optMember s ''default'' = JUndefined then None else Some (optMember s ''default''))"

definition builtinDefault :: "jv \<Rightarrow> jv option" where
  "builtinDefault t =
     (if t = JStr ''string'' then Some (JStr [])
      else if t = JStr ''number'' then Some (JNum (Fin 0))
      else if t = JStr ''boolean'' then Some (JBool False)
      else if t = JStr ''array'' then Some (JArr [])
      else if t = JStr ''object'' then Some (JObj [])
      else None)"

definition typeOfError :: "verror \<Rightarrow> jv" where
  "typeOfError e =
     (if truthy (optMember (params e) ''type'') then optMember (params e) ''type''
      else optMember (schema e) ''type'')"

definition defaultResolution :: "verror \<Rightarrow> string \<Rightarrow> jv" where
  "defaultResolution e name =
     (case declaredDefault (schema e) of
        Some d \<Rightarrow> d
      | None \<Rightarrow>
          (case declaredDefault (optMember (optMember (parentSchema e) ''properties'') name) of
             Some d \<Rightarrow> d
           | None \<Rightarrow>
               (case builtinDefault (typeOfError e) of Some d \<Rightarrow> d | None \<Rightarrow> JNull)))"

text \<open>Applying a synthesised fix to a document given as a tree: the document and the fix
  are built in an empty store, \<open>applyFix\<close> runs there, and the result is read back.\<close>

definition applyToTree :: "jv \<Rightarrow> jv ConfigFix \<Rightarrow> jv result" where
  "applyToTree doc f =
     (case alloc [] doc of (h, config) \<Rightarrow>
        (case allocFix h f of (h1, hf) \<Rightarrow>
           bindR (applyFix h1 config hf) (\<lambda>(h2, copy). JSON_stringify h2 copy)))"

section \<open>Properties of the synthesiser\<close>

lemma bindR_Inr_iff: "bindR r f = Inr y \<longleftrightarrow> (\<exists>x. r = Inr x \<and> f x = Inr y)"
  by (cases r) auto

lemmas fix_defs = fixRequired_def fixType_def fixAdditionalProperties_def fixMaxItems_def
  fixMaxLength_def fixMinimum_def fixMaximum_def fixNoLimit_def fixEnum_def

lemma generateFixForError_Some:
  assumes "generateFixForError B e config p = Inr (Some f)"
  shows "error f = e \<and> path f = p"
  using assms
  by (auto simp: generateFixForError_def fix_defs mkFix_def bindR_Inr_iff Let_def
           split: if_splits jv.splits)

lemma generateFixForError_unfixable:
  assumes "keyword e \<notin> {''required'', ''type'', ''additionalProperties'', ''maxItems'',
                           ''maxLength'', ''minimum'', ''maximum''}"
  shows "generateFixForError B e config p \<noteq> Inr (Some f)"
  using assms
  by (auto simp: generateFixForError_def fix_defs bindR_Inr_iff Let_def split: if_splits)

lemma loop_skip_None:
  "generateFixForError B e config (getErrorPath e) = Inr None \<Longrightarrow>
   generateFixesLoop B config (e # es) acc pr = generateFixesLoop B config es acc pr"
  by simp

lemma loop_drop_None:
  "generateFixForError B e config (getErrorPath e) = Inr None \<Longrightarrow>
   generateFixesLoop B config (es1 @ e # es2) acc pr = generateFixesLoop B config (es1 @ es2) acc pr"
  by (induction es1 arbitrary: acc pr) (auto split: sum.splits option.splits)

lemma loop_drop_processed:
  "pathKey e \<in> pr \<Longrightarrow>
   generateFixesLoop B config (es1 @ e # es2) acc pr = generateFixesLoop B config (es1 @ es2) acc pr"
  by (induction es1 arbitrary: acc pr) (auto split: sum.splits option.splits)

lemma loop_invariant:
  assumes "generateFixesLoop B config es acc pr = Inr out"
    and "distinct (map (\<lambda>f. pathKey (error f)) acc)"
    and "(\<lambda>f. pathKey (error f)) ` set acc \<subseteq> pr"
    and "\<forall>f \<in> set acc. path f = getErrorPath (error f)"
  shows "distinct (map (\<lambda>f. pathKey (error f)) out) \<and> (\<forall>f \<in> set out. path f = getErrorPath (error f))"
  using assms
proof (induction es arbitrary: acc pr)
  case Nil
  then show ?case by simp
next
  case (Cons e es)
  show ?case
  proof (cases "pathKey e \<in> pr")
    case True
    with Cons.prems have "generateFixesLoop B config es acc pr = Inr out" by simp
    from Cons.IH[OF this Cons.prems(2,3,4)] show ?thesis .
  next
    case False
    show ?thesis
    proof (cases "generateFixForError B e config (getErrorPath e)")
      case (Inl x)
      with False Cons.prems(1) show ?thesis by simp
    next
      case (Inr r)
      show ?thesis
      proof (cases r)
        case None
        with Inr False Cons.prems have "generateFixesLoop B config es acc pr = Inr out" by simp
        from Cons.IH[OF this Cons.prems(2,3,4)] show ?thesis .
      next
        case (Some f)
        with Inr have g: "generateFixForError B e config (getErrorPath e) = Inr (Some f)" by simp
        from generateFixForError_Some[OF g] have ef: "error f = e" "path f = getErrorPath e" by auto
        from Some Inr False Cons.prems(1)
        have run: "generateFixesLoop B config es (acc @ [f]) (insert (pathKey e) pr) = Inr out" by simp
        have d: "distinct (map (\<lambda>f. pathKey (error f)) (acc @ [f]))"
          using Cons.prems(2,3) False ef by auto
        have s: "(\<lambda>f. pathKey (error f)) ` set (acc @ [f]) \<subseteq> insert (pathKey e) pr"
          using Cons.prems(3) ef by auto
        have p: "\<forall>g \<in> set (acc @ [f]). path g = getErrorPath (error g)"
          using Cons.prems(4) ef by auto
        from Cons.IH[OF run d s p] show ?thesis .
      qed
    qed
  qed
qed

lemma distinct_fixKey:
  assumes "distinct (map (\<lambda>f. pathKey (error f)) out)"
    and "\<forall>f \<in> set out. path f = getErrorPath (error f)"
  shows "distinct (map fixKey out)"
proof -
  have "inj_on fixKey (set out)"
  proof (rule inj_onI)
    fix f g assume f: "f \<in> set out" and g: "g \<in> set out" and eq: "fixKey f = fixKey g"
    then have "pathKey (error f) = pathKey (error g)"
      using assms(2) by (simp add: fixKey_def pathKey_def)
    moreover have "inj_on (\<lambda>f. pathKey (error f)) (set out)" and "distinct out"
      using assms(1) by (auto simp: distinct_map)
    ultimately show "f = g" using f g by (auto dest: inj_onD)
  qed
  moreover have "distinct out" using assms(1) by (auto simp: distinct_map)
  ultimately show ?thesis by (simp add: distinct_map)
qed

text \<open>
  Claim C2. Whatever the errors and the document, the list that \<open>generateFixes\<close> returns
  holds no two fixes with the same dedup key (keyword of the error, resolved path). And when
  an error has produced a fix, a later error of the same call with the same keyword and path
  is dropped: the call returns what it returns without that later error, so the earlier
  occurrence wins.
\<close>

theorem generateFixes_dedup:
  "(generateFixes B errors config = Inr out \<longrightarrow> distinct (map fixKey out)) \<and>
   (generateFixForError B e1 config (getErrorPath e1) = Inr (Some f1) \<and>
    keyword e2 = keyword e1 \<and> getErrorPath e2 = getErrorPath e1 \<longrightarrow>
    generateFixes B (e1 # es1 @ e2 # es2) config = generateFixes B (e1 # es1 @ es2) config)"
proof (intro conjI impI)
  assume "generateFixes B errors config = Inr out"
  then have "generateFixesLoop B config errors [] {} = Inr out" by (simp add: generateFixes_def)
  from loop_invariant[OF this] have
    "distinct (map (\<lambda>f. pathKey (error f)) out) \<and> (\<forall>f \<in> set out. path f = getErrorPath (error f))"
    by simp
  then show "distinct (map fixKey out)" using distinct_fixKey by blast
next
  assume a: "generateFixForError B e1 config (getErrorPath e1) = Inr (Some f1) \<and>
    keyword e2 = keyword e1 \<and> getErrorPath e2 = getErrorPath e1"
  then have k: "pathKey e2 = pathKey e1" by (simp add: pathKey_def)
  show "generateFixes B (e1 # es1 @ e2 # es2) config = generateFixes B (e1 # es1 @ es2) config"
    using a k by (simp add: generateFixes_def loop_drop_processed)
qed

theorem generateFixes_dedup_witness:
  "generateFixes sampleBuiltins [errMaxLength, errMaxLength] docS = Inr [fixMaxLengthS]
   \<and> distinct (map fixKey [fixMaxLengthS])
   \<and> generateFixForError sampleBuiltins errMaxLength docS (getErrorPath errMaxLength)
       = Inr (Some fixMaxLengthS)
   \<and> generateFixes sampleBuiltins (errMaxLength # [] @ errMaxLength # []) docS
       = generateFixes sampleBuiltins (errMaxLength # [] @ []) docS"
proof -
  have a: "generateFixes sampleBuiltins [errMaxLength, errMaxLength] docS = Inr [fixMaxLengthS]"
    by code_simp
  have b: "generateFixForError sampleBuiltins errMaxLength docS (getErrorPath errMaxLength)
             = Inr (Some fixMaxLengthS)"
    by code_simp
  from generateFixes_dedup[of sampleBuiltins "[errMaxLength, errMaxLength]" docS
         "[fixMaxLengthS]" errMaxLength fixMaxLengthS errMaxLength "[]" "[]"] a b
  show ?thesis by blast
qed

subsection \<open>Keywords without a fix\<close>

text \<open>
  An error whose keyword is \<open>minItems\<close>, \<open>minLength\<close> or \<open>enum\<close>, or is none of the ten
  keywords the service recognises, never yields a fix. When the record carries what the
  description is built from (a \<open>params\<close> object for \<open>minItems\<close> and \<open>minLength\<close>, an
  array \<open>params.allowedValues\<close> for \<open>enum\<close>; nothing is needed for an unrecognised
  keyword) the error is left out without an exception: \<open>generateFixes\<close> returns what it
  returns without that error.
\<close>

lemma unfixable_keywords:
  assumes "keyword e \<in> {''minItems'', ''minLength'', ''enum''}
           \<or> keyword e \<notin> {''required'', ''type'', ''additionalProperties'', ''minItems'',
                 ''maxItems'', ''minLength'', ''maxLength'', ''minimum'', ''maximum'', ''enum''}"
  shows "(\<forall>f. generateFixForError B e config p \<noteq> Inr (Some f))
       \<and> ((keyword e \<in> {''minItems'', ''minLength''} \<longrightarrow> params e \<noteq> JUndefined \<and> params e \<noteq> JNull)
          \<and> (keyword e = ''enum'' \<longrightarrow> isArray (optMember (params e) ''allowedValues''))
          \<longrightarrow> generateFixes B (es1 @ e # es2) config = generateFixes B (es1 @ es2) config)"
proof (intro conjI allI impI)
  fix f
  from assms have "keyword e \<notin> {''required'', ''type'', ''additionalProperties'', ''maxItems'',
                           ''maxLength'', ''minimum'', ''maximum''}" by auto
  then show "generateFixForError B e config p \<noteq> Inr (Some f)"
    by (rule generateFixForError_unfixable)
next
  assume wf: "(keyword e \<in> {''minItems'', ''minLength''} \<longrightarrow> params e \<noteq> JUndefined \<and> params e \<noteq> JNull)
          \<and> (keyword e = ''enum'' \<longrightarrow> isArray (optMember (params e) ''allowedValues''))"
  have "generateFixForError B e config (getErrorPath e) = Inr None"
    using assms wf
    by (auto simp: generateFixForError_def fixNoLimit_def fixEnum_def getMember_def optMember_def
                   Let_def split: if_splits)
  then show "generateFixes B (es1 @ e # es2) config = generateFixes B (es1 @ es2) config"
    by (simp add: generateFixes_def loop_drop_None)
qed

lemma unfixable_keywords_example:
  "generateFixes sampleBuiltins ([] @ errMinItems # [errMaxLength]) docS
     = generateFixes sampleBuiltins ([] @ [errMaxLength]) docS"
proof -
  have k: "keyword errMinItems \<in> {''minItems'', ''minLength'', ''enum''}"
    and p: "params errMinItems \<noteq> JUndefined \<and> params errMinItems \<noteq> JNull"
    and n: "keyword errMinItems \<noteq> ''enum''"
    by (simp_all add: errMinItems_def mkError_def)
  from unfixable_keywords[of errMinItems sampleBuiltins docS "''/s''" "[]" "[errMaxLength]"] k p n
  show ?thesis by blast
qed

text \<open>
  Claim C8 asks that an error with keyword \<open>minItems\<close>, \<open>minLength\<close> or \<open>enum\<close>, or with
  an unrecognised keyword, is left out of the result with no exception raised. The cases
  of \<open>minItems\<close>, \<open>minLength\<close> and \<open>enum\<close> mean to return \<open>null\<close>, but first build a
  description from \<open>error.params\<close> with no guard: an \<open>enum\<close> record without
  \<open>params.allowedValues\<close> and a \<open>minItems\<close> record without \<open>params\<close> raise a
  \<open>TypeError\<close> that ends \<open>generateFixes\<close>, where a record with an unrecognised keyword
  and no \<open>params\<close> is left out quietly.
\<close>

theorem unfixable_keyword_raises:
  "generateFixes sampleBuiltins [errEnumNoValues] docA = Inl TypeError
   \<and> generateFixes sampleBuiltins [errMinItemsNoParams] docA = Inl TypeError
   \<and> generateFixes sampleBuiltins [errUnknownKeyword] docA = Inr []"
  by code_simp

subsection \<open>When a key counts as processed\<close>

text \<open>
  Claim C10. An error that yields no fix leaves the set of processed keys as it was: the
  loop goes on with the same list and the same set. So when a later error has the same
  keyword and path and does yield a fix, that fix is returned.
\<close>

theorem key_recorded_only_with_fix:
  assumes "generateFixForError B e config (getErrorPath e) = Inr None"
    and "keyword e2 = keyword e" and "getErrorPath e2 = getErrorPath e"
    and "generateFixForError B e2 config (getErrorPath e2) = Inr (Some f)"
  shows "generateFixesLoop B config (e # es) acc pr = generateFixesLoop B config es acc pr
       \<and> generateFixes B [e, e2] config = Inr [f]"
  using assms by (simp add: generateFixes_def)

theorem key_recorded_only_with_fix_witness:
  "generateFixForError sampleBuiltins errMax10 docN (getErrorPath errMax10) = Inr None
   \<and> keyword errMax3 = keyword errMax10 \<and> getErrorPath errMax3 = getErrorPath errMax10
   \<and> generateFixForError sampleBuiltins errMax3 docN (getErrorPath errMax3) = Inr (Some fixMax3)
   \<and> generateFixes sampleBuiltins [errMax10, errMax3] docN = Inr [fixMax3]"
proof -
  have a: "generateFixForError sampleBuiltins errMax10 docN (getErrorPath errMax10) = Inr None"
    by code_simp
  have b: "keyword errMax3 = keyword errMax10" "getErrorPath errMax3 = getErrorPath errMax10"
    by (simp_all add: errMax3_def errMax10_def mkError_def getErrorPath_def)
  have c: "generateFixForError sampleBuiltins errMax3 docN (getErrorPath errMax3) = Inr (Some fixMax3)"
    by code_simp
  from key_recorded_only_with_fix[OF a b c] a b c show ?thesis by blast
qed

subsection \<open>Malformed records\<close>

text \<open>
  Claim C3 asks that a malformed record only loses its own fix. The code has no handler:
  an \<open>enum\<close> error without \<open>params.allowedValues\<close> raises a \<open>TypeError\<close> that ends
  \<open>generateFixes\<close>, so the fix of the well-formed \<open>required\<close> error after it, which the
  call returns when that error comes alone, is lost; and a \<open>required\<close> error without
  \<open>params.missingProperty\<close> does yield a fix, one that adds a property named
  \<open>undefined\<close>.
\<close>

theorem malformed_record_aborts_batch:
  "generateFixes sampleBuiltins [errEnumNoValues, errRequiredB] docA = Inl TypeError
   \<and> generateFixes sampleBuiltins [errRequiredB] docA = Inr [fixRequiredB]
   \<and> (case generateFixes sampleBuiltins [errRequiredNoName] docA of
         Inr [f] \<Rightarrow> operation (suggestion f) = Add \<and> spath (suggestion f) = ''/a/undefined''
       | _ \<Rightarrow> False)"
  by code_simp

subsection \<open>Default values and the \<open>required\<close> fix\<close>

lemma getDefaultValue_resolution: "getDefaultValue e name = defaultResolution e name"
  by (simp add: getDefaultValue_def defaultResolution_def declaredDefault_def builtinDefault_def
                typeOfError_def typeDefault_def)

lemma childPath_eq: "childPath p name = p @ ''/'' @ name"
  by (simp add: childPath_def)


text \<open>
  Claim C7. For a \<open>required\<close> error (with its \<open>params\<close>) the fix is an \<open>add\<close> at the
  error's path followed by a slash and the missing property's name, and its value is the
  default-value resolution of the spec: the schema fragment's own default if present, else
  the enclosing schema's default for that property, else the built-in default for the type
  (the empty string, 0, false, the empty array, the empty object), else \<open>null\<close>. For the
  error \<open>{keyword: "required", instancePath: "/a", params: {missingProperty: "b"}}\<close> on
  the document \<open>{a: {}}\<close>, without schema hints, the fix adds \<open>/a/b\<close> with \<open>null\<close> and
  applying it yields \<open>{a: {b: null}}\<close>.
\<close>

theorem required_fix:
  assumes "keyword e = ''required''" and "params e \<noteq> JUndefined" and "params e \<noteq> JNull"
  shows "generateFixForError B e config p =
           Inr (Some \<lparr>error = e, path = p,
                  description = ''Missing required property '' @ quote
                    @ ToString B (getProp (params e) ''missingProperty'') @ quote
                    @ ''. Add with default value.'',
                  suggestion =
                    \<lparr>operation = Add,
                     spath = p @ ''/'' @ ToString B (getProp (params e) ''missingProperty''),
                     value = defaultResolution e
                               (ToString B (getProp (params e) ''missingProperty'')),
                     oldValue = JUndefined\<rparr>\<rparr>)
       \<and> generateFixes sampleBuiltins [errRequiredB] docA = Inr [fixRequiredB]
       \<and> applyToTree docA fixRequiredB = Inr (JObj [(''a'', JObj [(''b'', JNull)])])"
proof (intro conjI)
  show "generateFixForError B e config p =
           Inr (Some \<lparr>error = e, path = p,
                  description = ''Missing required property '' @ quote
                    @ ToString B (getProp (params e) ''missingProperty'') @ quote
                    @ ''. Add with default value.'',
                  suggestion =
                    \<lparr>operation = Add,
                     spath = p @ ''/'' @ ToString B (getProp (params e) ''missingProperty''),
                     value = defaultResolution e
                               (ToString B (getProp (params e) ''missingProperty'')),
                     oldValue = JUndefined\<rparr>\<rparr>)"
    using assms
    by (simp add: generateFixForError_def fixRequired_def getMember_def mkFix_def sug_def
                  childPath_eq getDefaultValue_resolution)
  show "generateFixes sampleBuiltins [errRequiredB] docA = Inr [fixRequiredB]"
    by code_simp
  show "applyToTree docA fixRequiredB = Inr (JObj [(''a'', JObj [(''b'', JNull)])])"
    by code_simp
qed

theorem required_fix_witness:
  "keyword errRequiredB = ''required'' \<and> params errRequiredB \<noteq> JUndefined
   \<and> params errRequiredB \<noteq> JNull
   \<and> generateFixForError sampleBuiltins errRequiredB docA ''/a'' = Inr (Some fixRequiredB)"
proof -
  have k: "keyword errRequiredB = ''required''" and p: "params errRequiredB \<noteq> JUndefined"
    and q: "params errRequiredB \<noteq> JNull"
    by (simp_all add: errRequiredB_def mkError_def)
  have d: "defaultResolution errRequiredB ''b'' = JNull" by code_simp
  have m: "ToString sampleBuiltins (getProp (params errRequiredB) ''missingProperty'') = ''b''"
    by code_simp
  from required_fix[OF k p q, of sampleBuiltins docA "''/a''"] k p q show ?thesis
    by (simp add: d m fixRequiredB_def)
qed


subsection \<open>The \<open>type\<close> fix\<close>






subsection \<open>The coercion table\<close>











section \<open>Properties of the applicator\<close>

lemma copyInv_length: "copyInv h0 h \<Longrightarrow> length h0 \<le> length h"
  by (metis copyInv_def length_take min.cobounded1 min.commute)

lemma closedFrom_cell:
  "closedFrom n h \<Longrightarrow> n \<le> a \<Longrightarrow> a < length h \<Longrightarrow> list_all (freshVal n) (cellVals (h ! a))"
proof -
  assume c: "closedFrom n h" and na: "n \<le> a" and al: "a < length h"
  have "h ! a = drop n h ! (a - n)" using na al by simp
  moreover have "a - n < length (drop n h)" using na al by simp
  ultimately show ?thesis using c by (simp add: closedFrom_def cellsFresh_def list_all_length)
qed

lemma closedFrom_snoc:
  "closedFrom n h \<Longrightarrow> n \<le> length h \<Longrightarrow> list_all (freshVal n) (cellVals c) \<Longrightarrow> closedFrom n (h @ [c])"
  by (simp add: closedFrom_def cellsFresh_def)

lemma closedFrom_update:
  "closedFrom n h \<Longrightarrow> list_all (freshVal n) (cellVals c) \<Longrightarrow> closedFrom n (h[a := c])"
proof -
  assume c: "closedFrom n h" and f: "list_all (freshVal n) (cellVals c)"
  have "set (drop n (h[a := c])) \<subseteq> insert c (set (drop n h))"
    by (metis drop_update_cancel drop_update_swap linorder_not_less set_update_subset_insert subset_insertI)
  then show ?thesis using c f by (auto simp: closedFrom_def cellsFresh_def list_all_iff)
qed

lemma copyInv_snoc:
  "copyInv h0 h \<Longrightarrow> list_all (freshVal (length h0)) (cellVals c) \<Longrightarrow> copyInv h0 (h @ [c])"
  using copyInv_length[of h0 h] by (auto simp: copyInv_def closedFrom_snoc)

lemma copyInv_update:
  "copyInv h0 h \<Longrightarrow> length h0 \<le> a \<Longrightarrow> list_all (freshVal (length h0)) (cellVals c) \<Longrightarrow>
   copyInv h0 (h[a := c])"
  by (auto simp: copyInv_def closedFrom_update)

lemma lookupH_fresh:
  "list_all (freshVal n) (map snd ps) \<Longrightarrow> freshVal n (lookupH ps k)"
  by (auto simp: lookupH_def list_all_iff split: option.splits dest!: map_of_SomeD)

lemma setProp_fresh:
  "list_all (freshVal n) (map snd ps) \<Longrightarrow> freshVal n v \<Longrightarrow> list_all (freshVal n) (map snd (setProp ps k v))"
  by (induction ps) auto

lemma deleteProp_fresh:
  "list_all (freshVal n) (map snd ps) \<Longrightarrow> list_all (freshVal n) (map snd (deleteProp ps k))"
  by (auto simp: deleteProp_def list_all_iff)

lemma namedProps_fresh:
  "list_all (freshVal n) (cellVals c) \<Longrightarrow> list_all (freshVal n) (map snd (namedProps c))"
  by (cases c) auto

lemma withNamedProps_fresh:
  "list_all (freshVal n) (cellVals c) \<Longrightarrow> list_all (freshVal n) (map snd qs) \<Longrightarrow>
   list_all (freshVal n) (cellVals (withNamedProps c qs))"
  by (cases c) auto

lemma alloc_inv:
  "\<forall>h1 v. alloc h t = (h1, v) \<longrightarrow> m \<le> length h \<longrightarrow>
     (\<exists>ys. h1 = h @ ys \<and> cellsFresh m ys) \<and> freshVal m v"
  "\<forall>h2 vs. allocList h ts = (h2, vs) \<longrightarrow> m \<le> length h \<longrightarrow>
     (\<exists>ys. h2 = h @ ys \<and> cellsFresh m ys) \<and> list_all (freshVal m) vs"
  "\<forall>h3 qs. allocProps h ps = (h3, qs) \<longrightarrow> m \<le> length h \<longrightarrow>
     (\<exists>ys. h3 = h @ ys \<and> cellsFresh m ys) \<and> list_all (freshVal m) (map snd qs)"
proof (induction h t and h ts and h ps rule: alloc_allocList_allocProps.induct)
  case (6 h xs)
  show ?case
  proof (intro allI impI)
    fix h1 v assume a: "alloc h (JArr xs) = (h1, v)" and m: "m \<le> length h"
    obtain h' vs where l: "allocList h xs = (h', vs)" by (cases "allocList h xs")
    with 6 m obtain ys where ys: "h' = h @ ys" "cellsFresh m ys" and vs: "list_all (freshVal m) vs"
      by blast
    from a l have "h1 = h' @ [HArr vs []]" "v = HRef (length h')" by auto
    with ys vs m show "(\<exists>ys. h1 = h @ ys \<and> cellsFresh m ys) \<and> freshVal m v"
      by (auto simp: cellsFresh_def)
  qed
next
  case (7 h ps)
  show ?case
  proof (intro allI impI)
    fix h1 v assume a: "alloc h (JObj ps) = (h1, v)" and m: "m \<le> length h"
    obtain h' qs where l: "allocProps h ps = (h', qs)" by (cases "allocProps h ps")
    with 7 m obtain ys where ys: "h' = h @ ys" "cellsFresh m ys" and qs: "list_all (freshVal m) (map snd qs)"
      by blast
    from a l have "h1 = h' @ [HMap qs]" "v = HRef (length h')" by auto
    with ys qs m show "(\<exists>ys. h1 = h @ ys \<and> cellsFresh m ys) \<and> freshVal m v"
      by (auto simp: cellsFresh_def)
  qed
next
  case (9 h x xs)
  show ?case
  proof (intro allI impI)
    fix h2 vs assume a: "allocList h (x # xs) = (h2, vs)" and m: "m \<le> length h"
    obtain h1 v where l1: "alloc h x = (h1, v)" by (cases "alloc h x")
    obtain h' vs' where l2: "allocList h1 xs = (h', vs')" by (cases "allocList h1 xs")
    from 9(1) l1 m obtain ys where ys: "h1 = h @ ys" "cellsFresh m ys" and v: "freshVal m v" by blast
    then have m1: "m \<le> length h1" using m by simp
    from 9(2)[OF l1[symmetric]] l2 m1 obtain zs where zs: "h' = h1 @ zs" "cellsFresh m zs"
      and vs': "list_all (freshVal m) vs'" by blast
    from a l1 l2 have "h2 = h'" "vs = v # vs'" by auto
    with ys zs v vs' show "(\<exists>ys. h2 = h @ ys \<and> cellsFresh m ys) \<and> list_all (freshVal m) vs"
      by (auto simp: cellsFresh_def)
  qed
next
  case (11 h kx ps)
  show ?case
  proof (intro allI impI)
    fix h3 qs assume a: "allocProps h (kx # ps) = (h3, qs)" and m: "m \<le> length h"
    obtain h1 v where l1: "alloc h (snd kx) = (h1, v)" by (cases "alloc h (snd kx)")
    obtain h' qs' where l2: "allocProps h1 ps = (h', qs')" by (cases "allocProps h1 ps")
    from 11(1) l1 m obtain ys where ys: "h1 = h @ ys" "cellsFresh m ys" and v: "freshVal m v" by blast
    then have m1: "m \<le> length h1" using m by simp
    from 11(2)[OF l1[symmetric]] l2 m1 obtain zs where zs: "h' = h1 @ zs" "cellsFresh m zs"
      and qs': "list_all (freshVal m) (map snd qs')" by blast
    from a l1 l2 have "h3 = h'" "qs = (fst kx, v) # qs'" by auto
    with ys zs v qs' show "(\<exists>ys. h3 = h @ ys \<and> cellsFresh m ys) \<and> list_all (freshVal m) (map snd qs)"
      by (auto simp: cellsFresh_def)
  qed
qed (auto simp: cellsFresh_def)

lemma alloc_copyInv:
  assumes "alloc h t = (h1, v)"
  shows "copyInv h h1 \<and> freshVal (length h) v"
proof -
  from alloc_inv(1)[of h t "length h"] assms
  obtain ys where "h1 = h @ ys" "cellsFresh (length h) ys" "freshVal (length h) v" by auto
  then show ?thesis by (simp add: copyInv_def closedFrom_def)
qed

lemma assignProp_copyInv:
  assumes "copyInv h0 h" "length h0 \<le> a" "a < length h" "freshVal (length h0) v"
  shows "copyInv h0 (assignProp h a k v)"
proof -
  have c: "list_all (freshVal (length h0)) (cellVals (h ! a))"
    using assms closedFrom_cell by (simp add: copyInv_def)
  show ?thesis unfolding assignProp_def
    by (rule copyInv_update[OF assms(1,2)])
       (intro withNamedProps_fresh setProp_fresh namedProps_fresh c assms(4))
qed

lemma deletePropAt_copyInv:
  assumes "copyInv h0 h" "length h0 \<le> a" "a < length h"
  shows "copyInv h0 (deletePropAt h a k)"
proof -
  have c: "list_all (freshVal (length h0)) (cellVals (h ! a))"
    using assms closedFrom_cell by (simp add: copyInv_def)
  show ?thesis unfolding deletePropAt_def
    by (rule copyInv_update[OF assms(1,2)])
       (intro withNamedProps_fresh deleteProp_fresh namedProps_fresh c)
qed

lemma stepInto_copyInv:
  assumes "copyInv h0 h" "length h0 \<le> a" "a < length h"
    and "stepInto h a part rest cm = Some (h1, nxt)"
  shows "copyInv h0 h1 \<and> freshVal (length h0) nxt"
proof -
  have c: "list_all (freshVal (length h0)) (cellVals (h ! a))"
    using assms closedFrom_cell by (simp add: copyInv_def)
  have l: "length h0 \<le> length h" using assms(1) by (rule copyInv_length)
  show ?thesis
  proof (cases "lookupH (namedProps (h ! a)) part = HUndefined")
    case False
    with assms(4) have "h1 = h" "nxt = lookupH (namedProps (h ! a)) part"
      by (auto simp: stepInto_def)
    then show ?thesis using assms(1) lookupH_fresh[OF namedProps_fresh[OF c]] by simp
  next
    case True
    define cell where "cell = (if rest \<noteq> [] \<and> isDigits (hd rest) then HArr [] [] else HMap [])"
    from True assms(4) have eq: "h1 = assignProp (h @ [cell]) a part (HRef (length h))"
      "nxt = HRef (length h)"
      by (auto simp: stepInto_def cell_def split: if_splits)
    have "copyInv h0 (h @ [cell])"
      by (rule copyInv_snoc[OF assms(1)]) (simp add: cell_def)
    then have "copyInv h0 (assignProp (h @ [cell]) a part (HRef (length h)))"
      by (rule assignProp_copyInv) (use assms l in auto)
    then show ?thesis using eq l by simp
  qed
qed

lemma getNestedObject_copyInv:
  "copyInv h0 h \<Longrightarrow> freshVal (length h0) cur \<Longrightarrow> getNestedObject h cur parts cm = (h1, r) \<Longrightarrow>
   copyInv h0 h1 \<and> freshVal (length h0) r"
proof (induction parts arbitrary: h cur)
  case Nil
  then show ?case by simp
next
  case (Cons part rest)
  show ?case
  proof (cases cur)
    case (HRef a)
    with Cons.prems have a0: "length h0 \<le> a" by simp
    show ?thesis
    proof (cases "a < length h")
      case False
      with HRef Cons.prems show ?thesis by auto
    next
      case True
      have c: "list_all (freshVal (length h0)) (cellVals (h ! a))"
        using Cons.prems(1) a0 True closedFrom_cell by (simp add: copyInv_def)
      have viaStep: "copyInv h0 h1 \<and> freshVal (length h0) r"
        if g: "(case stepInto h a part rest cm of None \<Rightarrow> (h, HUndefined)
                 | Some (h', nxt) \<Rightarrow> getNestedObject h' nxt rest cm) = (h1, r)"
      proof (cases "stepInto h a part rest cm")
        case None
        with g Cons.prems(1) show ?thesis by auto
      next
        case (Some p)
        obtain h' nxt where p: "p = (h', nxt)" by (cases p)
        from stepInto_copyInv[OF Cons.prems(1) a0 True Some[unfolded p]]
        have "copyInv h0 h'" "freshVal (length h0) nxt" by auto
        moreover from g Some p have "getNestedObject h' nxt rest cm = (h1, r)" by simp
        ultimately show ?thesis using Cons.IH by blast
      qed
      show ?thesis
      proof (cases "h ! a")
        case (HMap ps)
        with HRef True Cons.prems(3) show ?thesis by (intro viaStep) simp
      next
        case (HArr xs ps)
        show ?thesis
        proof (cases "isDigits part")
          case False
          with HArr HRef True Cons.prems(3) show ?thesis by (intro viaStep) simp
        next
          case d: True
          show ?thesis
          proof (cases "parseInt part < length xs")
            case False
            with d HArr HRef True Cons.prems show ?thesis by auto
          next
            case i: True
            with d HArr HRef True Cons.prems(3)
            have g: "getNestedObject h (xs ! parseInt part) rest cm = (h1, r)" by simp
            have "freshVal (length h0) (xs ! parseInt part)"
              using c HArr i by (auto simp: list_all_iff)
            with Cons.IH[OF Cons.prems(1) _ g] show ?thesis by simp
          qed
        qed
      qed
    qed
  qed (use Cons.prems in auto)
qed

lemma setProperty_frame:
  assumes "copyInv h0 h" "freshVal (length h0) obj"
  shows "take (length h0) (setProperty h obj parts v) = h0"
proof (cases "parts = []")
  case True
  with assms show ?thesis by (simp add: setProperty_def copyInv_def)
next
  case False
  obtain h1 parent where g: "getNestedObject h obj (butlast parts) True = (h1, parent)"
    by (cases "getNestedObject h obj (butlast parts) True")
  from getNestedObject_copyInv[OF assms g] have inv: "copyInv h0 h1" and fr: "freshVal (length h0) parent"
    by auto
  then have t: "take (length h0) h1 = h0" by (simp add: copyInv_def)
  show ?thesis
    using False g t fr
    by (auto simp: setProperty_def assignProp_def split: hval.splits hobj.splits)
qed

lemma removeProperty_frame:
  assumes "copyInv h0 h" "freshVal (length h0) obj"
  shows "take (length h0) (removeProperty h obj parts) = h0"
proof (cases "parts = []")
  case True
  with assms show ?thesis by (simp add: removeProperty_def copyInv_def)
next
  case False
  obtain h1 parent where g: "getNestedObject h obj (butlast parts) False = (h1, parent)"
    by (cases "getNestedObject h obj (butlast parts) False")
  from getNestedObject_copyInv[OF assms g] have inv: "copyInv h0 h1" and fr: "freshVal (length h0) parent"
    by auto
  then have t: "take (length h0) h1 = h0" by (simp add: copyInv_def)
  show ?thesis
    using False g t fr
    by (auto simp: removeProperty_def deletePropAt_def split: hval.splits hobj.splits)
qed

lemma jsonClone_copyInv:
  "jsonClone h config = Inr (h1, c) \<Longrightarrow> copyInv h h1 \<and> freshVal (length h) c"
  by (auto simp: jsonClone_def bindR_Inr_iff alloc_copyInv split: if_splits)

lemma stringifyTree_frame:
  assumes t: "take (length h) h' = h" and wf: "wfHeap h"
  shows "oldVal (length h) v \<Longrightarrow> stringifyTree n h' v = stringifyTree n h v"
proof (induction n arbitrary: v)
  case 0
  then show ?case by (cases v) auto
next
  case (Suc n)
  show ?case
  proof (cases v)
    case (HRef a)
    with Suc.prems have a: "a < length h" by simp
    have l: "length h \<le> length h'" using t by (metis length_take min.cobounded1 min.commute)
    have eq: "h' ! a = h ! a" using t a by (metis nth_take)
    have cell: "list_all (oldVal (length h)) (cellVals (h ! a))"
      using wf a by (simp add: wfHeap_def list_all_length)
    show ?thesis
    proof (cases "h ! a")
      case (HArr xs ps)
      with cell have "\<forall>x \<in> set xs. oldVal (length h) x" by (auto simp: list_all_iff)
      then have m: "map (stringifyTree n h') xs = map (stringifyTree n h) xs"
        using Suc.IH by simp
      from HRef a l eq HArr show ?thesis by (simp add: m)
    next
      case (HMap ps)
      with cell have "\<forall>kv \<in> set ps. oldVal (length h) (snd kv)" by (auto simp: list_all_iff)
      then have m: "map (\<lambda>kv. bindR (stringifyTree n h' (snd kv)) (\<lambda>t. Inr (fst kv, t))) ps
               = map (\<lambda>kv. bindR (stringifyTree n h (snd kv)) (\<lambda>t. Inr (fst kv, t))) ps"
        using Suc.IH by simp
      from HRef a l eq HMap show ?thesis by (simp add: m)
    qed
  qed auto
qed

lemma stepInto_length: "stepInto h a part rest cm = Some (h1, nxt) \<Longrightarrow> length h \<le> length h1"
  by (auto simp: stepInto_def assignProp_def split: if_splits)

lemma getNestedObject_length:
  "getNestedObject h cur parts cm = (h1, r) \<Longrightarrow> length h \<le> length h1"
proof (induction parts arbitrary: h cur)
  case Nil
  then show ?case by simp
next
  case (Cons part rest)
  then show ?case
    by (auto split: hval.splits hobj.splits if_splits option.splits
             dest!: stepInto_length dest: le_trans)
qed

lemma setProperty_length: "length h \<le> length (setProperty h obj parts v)"
proof -
  obtain h1 parent where g: "getNestedObject h obj (butlast parts) True = (h1, parent)"
    by (cases "getNestedObject h obj (butlast parts) True")
  from getNestedObject_length[OF g] show ?thesis
    using g by (auto simp: setProperty_def assignProp_def split: hval.splits hobj.splits)
qed

lemma removeProperty_length: "length h \<le> length (removeProperty h obj parts)"
proof -
  obtain h1 parent where g: "getNestedObject h obj (butlast parts) False = (h1, parent)"
    by (cases "getNestedObject h obj (butlast parts) False")
  from getNestedObject_length[OF g] show ?thesis
    using g by (auto simp: removeProperty_def deletePropAt_def split: hval.splits hobj.splits)
qed

lemma alloc_valid:
  "\<forall>h1 v. alloc h t = (h1, v) \<longrightarrow> oldVal (length h1) v"
  "\<forall>h2 vs. allocList h ts = (h2, vs) \<longrightarrow> True"
  "\<forall>h3 qs. allocProps h ps = (h3, qs) \<longrightarrow> True"
  by (induction h t and h ts and h ps rule: alloc_allocList_allocProps.induct)
     (auto split: prod.splits)

subsection \<open>Writing at the last segment\<close>

lemma lookupH_setProp_same: "lookupH (setProp ps k v) k = v"
  by (induction ps) (auto simp: lookupH_def)

lemma lookupH_setProp_other: "k' \<noteq> k \<Longrightarrow> lookupH (setProp ps k v) k' = lookupH ps k'"
  by (induction ps) (auto simp: lookupH_def)

lemma walk_from_created:
  assumes "b < length h"
    and "h ! b = HMap [] \<or> (h ! b = HArr [] [] \<and> rest \<noteq> [] \<and> isDigits (hd rest))"
    and "getNestedObject h (HRef b) rest True = (h2, HRef a)"
  shows "a < length h2 \<and> (\<exists>qs. h2 ! a = HMap qs)"
  using assms
proof (induction rest arbitrary: h b)
  case Nil
  then show ?case by auto
next
  case (Cons part rest')
  show ?case
  proof (cases "h ! b")
    case (HArr xs ps)
    with Cons.prems show ?thesis by auto
  next
    case (HMap qs)
    with Cons.prems(2) have e: "h ! b = HMap []" by auto
    define c where "c = (if rest' \<noteq> [] \<and> isDigits (hd rest') then HArr [] [] else HMap [])"
    define h' where "h' = assignProp (h @ [c]) b part (HRef (length h))"
    have s: "stepInto h b part rest' True = Some (h', HRef (length h))"
      using e by (simp add: stepInto_def lookupH_def h'_def c_def)
    have g: "getNestedObject h' (HRef (length h)) rest' True = (h2, HRef a)"
      using Cons.prems(1,3) e s by simp
    have l: "length h < length h'" by (simp add: h'_def assignProp_def)
    have n: "h' ! length h = c"
      using Cons.prems(1) by (simp add: h'_def assignProp_def nth_append)
    have "h' ! length h = HMap [] \<or> (h' ! length h = HArr [] [] \<and> rest' \<noteq> [] \<and> isDigits (hd rest'))"
      unfolding n c_def by simp
    from Cons.IH[OF l this g] show ?thesis .
  qed
qed

lemma stepInto_created:
  assumes "stepInto h b part rest True = Some (h1, nxt)" and "h1 \<noteq> h" and "b < length h"
  shows "\<exists>c. nxt = HRef c \<and> c < length h1
            \<and> (h1 ! c = HMap [] \<or> (h1 ! c = HArr [] [] \<and> rest \<noteq> [] \<and> isDigits (hd rest)))"
  using assms
  by (auto simp: stepInto_def assignProp_def nth_append split: if_splits)

lemma stepInto_kept:
  "stepInto h b part rest True = Some (h1, nxt) \<Longrightarrow> h1 = h \<or> length h < length h1"
  by (auto simp: stepInto_def assignProp_def split: if_splits)

lemma array_parent_not_created:
  assumes "getNestedObject h cur parts True = (h2, HRef a)"
    and "a < length h2" and "h2 ! a = HArr xs ps"
  shows "h2 = h"
  using assms
proof (induction parts arbitrary: h cur)
  case Nil
  then show ?case by simp
next
  case (Cons part rest)
  from Cons.prems(1) obtain b where cur: "cur = HRef b" and b: "b < length h"
    by (cases cur) (auto split: if_splits)
  have viaStep: "h2 = h"
    if g: "(case stepInto h b part rest True of None \<Rightarrow> (h, HUndefined)
             | Some (h', nxt) \<Rightarrow> getNestedObject h' nxt rest True) = (h2, HRef a)"
  proof (cases "stepInto h b part rest True")
    case None
    with g show ?thesis by simp
  next
    case (Some p)
    obtain h' nxt where p: "p = (h', nxt)" by (cases p)
    from g Some p have w: "getNestedObject h' nxt rest True = (h2, HRef a)" by simp
    show ?thesis
    proof (cases "h' = h")
      case True
      with w Cons.IH[OF _ Cons.prems(2,3)] show ?thesis by simp
    next
      case False
      from stepInto_created[OF Some[unfolded p] False b]
      obtain c where "nxt = HRef c" "c < length h'"
        "h' ! c = HMap [] \<or> (h' ! c = HArr [] [] \<and> rest \<noteq> [] \<and> isDigits (hd rest))"
        by blast
      with walk_from_created[of c h' rest h2 a] w have "\<exists>qs. h2 ! a = HMap qs" by simp
      with Cons.prems(3) show ?thesis by simp
    qed
  qed
  show ?case
  proof (cases "h ! b")
    case (HMap qs)
    with cur b Cons.prems(1) show ?thesis by (intro viaStep) simp
  next
    case (HArr ys rs)
    show ?thesis
    proof (cases "isDigits part")
      case False
      with HArr cur b Cons.prems(1) show ?thesis by (intro viaStep) simp
    next
      case True
      with HArr cur b Cons.prems(1)
      have "getNestedObject h (ys ! parseInt part) rest True = (h2, HRef a)"
        by (auto split: if_splits)
      from Cons.IH[OF this Cons.prems(2,3)] show ?thesis .
    qed
  qed
qed

text \<open>
  Writing at the last segment of a plain path. Take a suggestion that is not a \<open>remove\<close>
  (so an \<open>add\<close>, \<open>replace\<close> or \<open>set\<close>), applied to a document that can be copied,
  whose path has a last segment and whose parent resolves to a cell \<open>a\<close>. When the parent
  is an array and the last segment is made of digits, with value \<open>i\<close>, resolving the
  parent has created nothing, and the store returned is the copy with element \<open>i\<close>
  overwritten if \<open>i\<close> is below the length, with the value appended if \<open>i\<close> is the
  length, and the untouched copy if \<open>i\<close> is beyond it. When the parent is a map the key
  is set whatever was there: afterwards the key reads as the value and every other key
  reads as before.
\<close>

lemma setProperty_cases:
  assumes "operation (suggestion fix) \<noteq> Remove"
    and "jsonClone h config = Inr (h1, copy)"
    and "pathParts (spath (suggestion fix)) \<noteq> []"
    and "getNestedObject h1 copy (butlast (pathParts (spath (suggestion fix)))) True = (h2, HRef a)"
    and "a < length h2"
    and "plainPath (pathParts (spath (suggestion fix)))"
  shows "(h2 ! a = HArr xs ps \<and> isDigits (last (pathParts (spath (suggestion fix)))) \<longrightarrow>
           h2 = h1 \<and>
           applyFix h config fix =
             Inr (if parseInt (last (pathParts (spath (suggestion fix)))) < length xs
                  then h1[a := HArr (xs[parseInt (last (pathParts (spath (suggestion fix))))
                                       := value (suggestion fix)]) ps]
                  else if parseInt (last (pathParts (spath (suggestion fix)))) = length xs
                  then h1[a := HArr (xs @ [value (suggestion fix)]) ps]
                  else h1, copy))
       \<and> (h2 ! a = HMap qs \<longrightarrow>
           applyFix h config fix =
             Inr (h2[a := HMap (setProp qs (last (pathParts (spath (suggestion fix))))
                                  (value (suggestion fix)))], copy)
           \<and> lookupH (setProp qs (last (pathParts (spath (suggestion fix))))
                        (value (suggestion fix)))
                (last (pathParts (spath (suggestion fix)))) = value (suggestion fix)
           \<and> (\<forall>k. k \<noteq> last (pathParts (spath (suggestion fix))) \<longrightarrow>
                  lookupH (setProp qs (last (pathParts (spath (suggestion fix))))
                            (value (suggestion fix))) k = lookupH qs k))"
proof -
  have ops: "operation (suggestion fix) = Add \<or> operation (suggestion fix) = Replace
             \<or> operation (suggestion fix) = Set"
    using assms(1) by (cases "operation (suggestion fix)") auto
  have app: "applyFix h config fix =
      Inr (setProperty h1 copy (pathParts (spath (suggestion fix))) (value (suggestion fix)), copy)"
    using assms(1,2) ops by (auto simp: applyFix_def)
  have same: "h2 = h1" if "h2 ! a = HArr xs ps"
    using array_parent_not_created[OF assms(4,5) that] .
  show ?thesis
    using assms(3,4,5) same
    by (auto simp: app setProperty_def assignProp_def lookupH_setProp_same lookupH_setProp_other)
qed

lemma setProperty_cases_example:
  "operation (suggestion (fixOf Set ''/xs/2'' (HNum (Fin 3)) HUndefined)) \<noteq> Remove
   \<and> plainPath [''xs'', ''2'']
   \<and> jsonClone storeXs refXs
       = Inr ([HArr [HNum (Fin 1), HNum (Fin 2)] [], HMap [(''xs'', HRef 0)],
               HArr [HNum (Fin 1), HNum (Fin 2)] [], HMap [(''xs'', HRef 2)]], HRef 3)
   \<and> pathParts ''/xs/2'' = [''xs'', ''2'']
   \<and> getNestedObject [HArr [HNum (Fin 1), HNum (Fin 2)] [], HMap [(''xs'', HRef 0)],
               HArr [HNum (Fin 1), HNum (Fin 2)] [], HMap [(''xs'', HRef 2)]] (HRef 3) [''xs''] True
       = ([HArr [HNum (Fin 1), HNum (Fin 2)] [], HMap [(''xs'', HRef 0)],
               HArr [HNum (Fin 1), HNum (Fin 2)] [], HMap [(''xs'', HRef 2)]], HRef 2)
   \<and> applyFix storeXs refXs (fixOf Set ''/xs/2'' (HNum (Fin 3)) HUndefined)
       = Inr ([HArr [HNum (Fin 1), HNum (Fin 2)] [], HMap [(''xs'', HRef 0)],
               HArr [HNum (Fin 1), HNum (Fin 2), HNum (Fin 3)] [], HMap [(''xs'', HRef 2)]], HRef 3)"
proof -
  let ?f = "fixOf Set ''/xs/2'' (HNum (Fin 3)) HUndefined"
  let ?h1 = "[HArr [HNum (Fin 1), HNum (Fin 2)] [], HMap [(''xs'', HRef 0)],
               HArr [HNum (Fin 1), HNum (Fin 2)] [], HMap [(''xs'', HRef 2)]]"
  have o: "operation (suggestion ?f) \<noteq> Remove" by (simp add: fixOf_def)
  have c: "jsonClone storeXs refXs = Inr (?h1, HRef 3)" by code_simp
  have p: "pathParts ''/xs/2'' = [''xs'', ''2'']" by code_simp
  have s: "spath (suggestion ?f) = ''/xs/2''" "value (suggestion ?f) = HNum (Fin 3)"
    by (simp_all add: fixOf_def)
  have g: "getNestedObject ?h1 (HRef 3) [''xs''] True = (?h1, HRef 2)" by code_simp
  have d: "isDigits ''2''" "parseInt ''2'' = 2" by code_simp+
  have pl: "plainPath [''xs'', ''2'']" by code_simp
  have n: "?h1 ! 2 = HArr [HNum (Fin 1), HNum (Fin 2)] []" by simp
  have u: "?h1[2 := HArr ([HNum (Fin 1), HNum (Fin 2)] @ [HNum (Fin 3)]) []]
           = [HArr [HNum (Fin 1), HNum (Fin 2)] [], HMap [(''xs'', HRef 0)],
               HArr [HNum (Fin 1), HNum (Fin 2), HNum (Fin 3)] [], HMap [(''xs'', HRef 2)]]"
    by (simp add: numeral_2_eq_2)
  have "applyFix storeXs refXs ?f = Inr (?h1[2 := HArr ([HNum (Fin 1), HNum (Fin 2)] @ [HNum (Fin 3)]) []], HRef 3)"
    using setProperty_cases[of ?f storeXs refXs ?h1 "HRef 3" ?h1 2
         "[HNum (Fin 1), HNum (Fin 2)]" "[]" "[]"] o c n pl
    by (simp add: s p g d del: getNestedObject.simps)
  with u o c p g pl show ?thesis by (simp del: getNestedObject.simps)
qed

text \<open>The examples of the spec on \<open>{xs: [1, 2]}\<close>: setting \<open>/xs/2\<close> appends, setting
  \<open>/xs/5\<close> changes nothing; and on \<open>{}\<close> the parent \<open>xs\<close> is created as a map, since the
  walk to the parent does not see the last segment.\<close>

lemma append_semantics_examples:
  "bindR (applyFix storeXs refXs (fixOf Set ''/xs/2'' (HNum (Fin 3)) HUndefined))
         (\<lambda>(h, copy). JSON_stringify h copy)
     = Inr (JObj [(''xs'', JArr [JNum (Fin 1), JNum (Fin 2), JNum (Fin 3)])])"
  "bindR (applyFix storeXs refXs (fixOf Set ''/xs/5'' (HNum (Fin 9)) HUndefined))
         (\<lambda>(h, copy). JSON_stringify h copy)
     = Inr docXs"
  "bindR (applyFix [HMap []] (HRef 0) (fixOf Set ''/xs/5'' (HNum (Fin 9)) HUndefined))
         (\<lambda>(h, copy). JSON_stringify h copy)
     = Inr (JObj [(''xs'', JObj [(''5'', JNum (Fin 9))])])"
  by code_simp+

subsection \<open>Stores of JSON-like data stay so\<close>

lemma soundBy_cell:
  "soundBy r h \<Longrightarrow> a < length h \<Longrightarrow> r a < length h \<and> list_all (refersBelow r (length h) a) (cellVals (h ! a))"
  by (simp add: soundBy_def soundCell_def list_all_iff)


lemma sequenceR_ok:
  "\<forall>x \<in> set rs. \<exists>t. x = Inr t \<Longrightarrow> \<exists>ts. sequenceR rs = Inr ts"
  by (induction rs) auto

lemma stringifyTree_ok:
  assumes "soundBy r h"
  shows "(\<forall>a. v = HRef a \<longrightarrow> a < length h \<and> r a < n) \<Longrightarrow> \<exists>t. stringifyTree n h v = Inr t"
proof (induction n arbitrary: v)
  case 0
  then show ?case by (cases v) auto
next
  case (Suc n)
  show ?case
  proof (cases v)
    case (HRef a)
    with Suc.prems have a: "a < length h" and ra: "r a \<le> n" by auto
    from soundBy_cell[OF assms a] have cell: "list_all (refersBelow r (length h) a) (cellVals (h ! a))"
      by simp
    have child: "\<exists>t. stringifyTree n h x = Inr t" if "x \<in> set (cellVals (h ! a))" for x
    proof (rule Suc.IH, intro allI impI)
      fix b assume "x = HRef b"
      with cell that have "b < length h \<and> r b < r a" by (auto simp: list_all_iff)
      with ra show "b < length h \<and> r b < n" by simp
    qed
    show ?thesis
    proof (cases "h ! a")
      case (HArr xs ps)
      with child have "\<forall>x \<in> set (map (stringifyTree n h) xs). \<exists>t. x = Inr t" by auto
      from sequenceR_ok[OF this] obtain ts where "sequenceR (map (stringifyTree n h) xs) = Inr ts" ..
      with HRef a HArr show ?thesis by simp
    next
      case (HMap ps)
      with child have "\<forall>x \<in> set (map (\<lambda>kv. bindR (stringifyTree n h (snd kv)) (\<lambda>t. Inr (fst kv, t))) ps). \<exists>t. x = Inr t"
        by fastforce
      from sequenceR_ok[OF this] obtain qs where
        "sequenceR (map (\<lambda>kv. bindR (stringifyTree n h (snd kv)) (\<lambda>t. Inr (fst kv, t))) ps) = Inr qs" ..
      with HRef a HMap show ?thesis by simp
    qed
  qed auto
qed

lemma JSON_stringify_ok:
  "soundBy r h \<Longrightarrow> oldVal (length h) v \<Longrightarrow> \<exists>t. JSON_stringify h v = Inr t"
  unfolding JSON_stringify_def
  by (rule stringifyTree_ok, assumption) (auto dest: soundBy_cell)

lemma stringifyTree_undefined:
  "stringifyTree n h v = Inr JUndefined \<Longrightarrow> v = HUndefined"
  by (cases v; cases n) (auto simp: bindR_Inr_iff split: if_splits hobj.splits jnum.splits)

lemma jsonClone_ok:
  assumes "soundBy r h" "oldVal (length h) v" "v \<noteq> HUndefined"
  shows "\<exists>h1 c. jsonClone h v = Inr (h1, c)"
proof -
  from JSON_stringify_ok[OF assms(1,2)] obtain t where t: "JSON_stringify h v = Inr t" ..
  with assms(3) have "t \<noteq> JUndefined" using stringifyTree_undefined by (auto simp: JSON_stringify_def)
  with t show ?thesis by (cases "alloc h t") (simp add: jsonClone_def)
qed




lemma oldVal_mono: "oldVal n v \<Longrightarrow> n \<le> n' \<Longrightarrow> oldVal n' v"
  by (cases v) auto























lemma applyFix_prefix:
  assumes "applyFix h config fix = Inr (h', copy)"
  shows "take (length h) h' = h \<and> length h \<le> length h'
         \<and> freshVal (length h) copy \<and> oldVal (length h') copy"
proof -
  from assms obtain h1 where c: "jsonClone h config = Inr (h1, copy)"
    and h': "h' = removeProperty h1 copy (pathParts (spath (suggestion fix)))
           \<or> h' = setProperty h1 copy (pathParts (spath (suggestion fix))) (value (suggestion fix))
           \<or> h' = h1"
    by (auto simp: applyFix_def bindR_Inr_iff split: if_splits)
  from jsonClone_copyInv[OF c] have inv: "copyInv h h1" and fr: "freshVal (length h) copy" by auto
  have t: "take (length h) h' = h"
    using h' setProperty_frame[OF inv fr] removeProperty_frame[OF inv fr] inv
    by (auto simp: copyInv_def)
  have "oldVal (length h1) copy"
    using c alloc_valid(1) by (auto simp: jsonClone_def bindR_Inr_iff split: if_splits)
  moreover have l: "length h1 \<le> length h'"
    using h' setProperty_length removeProperty_length by auto
  ultimately have "oldVal (length h') copy" by (rule oldVal_mono)
  moreover have "length h \<le> length h'" using copyInv_length[OF inv] l by simp
  ultimately show ?thesis using t fr by simp
qed




subsection \<open>The copy and the frame of \<open>applyFix\<close>\<close>

text \<open>
  The frame of \<open>applyFix\<close> on a plain path. In a store of JSON-like data, \<open>applyFix\<close>
  on a document (a value of the store that is not \<open>undefined\<close>) returns. And whenever it
  returns, every cell the store held before the call is unchanged, so the document it was
  given is structurally what it was; the document it returns is a cell allocated during
  the call; and in a store without dangling references the tree read from the given
  document is the same before and after the call. (When the copy cannot be made the call
  raises and changes nothing.)
\<close>

lemma applyFix_frame:
  assumes "plainPath (pathParts (spath (suggestion fix)))"
  shows "(soundBy r h \<and> oldVal (length h) config \<and> config \<noteq> HUndefined \<longrightarrow>
      (\<exists>h2 c. applyFix h config fix = Inr (h2, c)))
   \<and> (applyFix h config fix = Inr (h', copy) \<longrightarrow>
        take (length h) h' = h
      \<and> (\<forall>a. copy = HRef a \<longrightarrow> length h \<le> a \<and> a < length h')
      \<and> (wfHeap h \<and> oldVal (length h) config \<longrightarrow>
            (\<forall>n. stringifyTree n h' config = stringifyTree n h config)))"
proof -
  have ret: "\<exists>h2 c. applyFix h config fix = Inr (h2, c)"
    if "soundBy r h \<and> oldVal (length h) config \<and> config \<noteq> HUndefined"
  proof -
    from that jsonClone_ok obtain h1 c where "jsonClone h config = Inr (h1, c)" by blast
    then show ?thesis by (cases "operation (suggestion fix)") (auto simp: applyFix_def)
  qed
  have fr: "take (length h) h' = h
      \<and> (\<forall>a. copy = HRef a \<longrightarrow> length h \<le> a \<and> a < length h')
      \<and> (wfHeap h \<and> oldVal (length h) config \<longrightarrow>
            (\<forall>n. stringifyTree n h' config = stringifyTree n h config))"
    if a: "applyFix h config fix = Inr (h', copy)"
  proof -
    from applyFix_prefix[OF a] have t: "take (length h) h' = h"
      and f: "freshVal (length h) copy" and v: "oldVal (length h') copy" by auto
    from f v have "\<forall>a. copy = HRef a \<longrightarrow> length h \<le> a \<and> a < length h'" by auto
    with t stringifyTree_frame[OF t] show ?thesis by blast
  qed
  from ret fr show ?thesis by blast
qed

lemma applyFix_frame_example:
  "plainPath (pathParts ''/xs/2'')
   \<and> soundBy (\<lambda>a. a) storeXs \<and> oldVal (length storeXs) refXs \<and> refXs \<noteq> HUndefined
   \<and> applyFix storeXs refXs (fixOf Set ''/xs/2'' (HNum (Fin 3)) HUndefined)
     = Inr ([HArr [HNum (Fin 1), HNum (Fin 2)] [], HMap [(''xs'', HRef 0)],
             HArr [HNum (Fin 1), HNum (Fin 2), HNum (Fin 3)] [], HMap [(''xs'', HRef 2)]],
            HRef 3)
   \<and> wfHeap storeXs
   \<and> take (length storeXs)
        [HArr [HNum (Fin 1), HNum (Fin 2)] [], HMap [(''xs'', HRef 0)],
         HArr [HNum (Fin 1), HNum (Fin 2), HNum (Fin 3)] [], HMap [(''xs'', HRef 2)]]
       = storeXs
   \<and> stringifyTree 2
        [HArr [HNum (Fin 1), HNum (Fin 2)] [], HMap [(''xs'', HRef 0)],
         HArr [HNum (Fin 1), HNum (Fin 2), HNum (Fin 3)] [], HMap [(''xs'', HRef 2)]] refXs
       = stringifyTree 2 storeXs refXs"
proof -
  let ?h' = "[HArr [HNum (Fin 1), HNum (Fin 2)] [], HMap [(''xs'', HRef 0)],
             HArr [HNum (Fin 1), HNum (Fin 2), HNum (Fin 3)] [], HMap [(''xs'', HRef 2)]]"
  have s: "soundBy (\<lambda>a. a) storeXs \<and> oldVal (length storeXs) refXs \<and> refXs \<noteq> HUndefined"
    by code_simp
  have e: "applyFix storeXs refXs (fixOf Set ''/xs/2'' (HNum (Fin 3)) HUndefined)
             = Inr (?h', HRef 3)"
    by code_simp
  have w: "wfHeap storeXs" by code_simp
  have pl: "plainPath (pathParts ''/xs/2'')" by code_simp
  have pf: "plainPath (pathParts (spath (suggestion (fixOf Set ''/xs/2'' (HNum (Fin 3)) HUndefined))))"
    using pl by (simp add: fixOf_def)
  from applyFix_frame[OF pf, of "\<lambda>a. a" storeXs refXs ?h' "HRef 3"] s e w pl
  show ?thesis by blast
qed

subsection \<open>The diff\<close>








text \<open>The placeholder examples of the spec: an \<open>add\<close> at an absent path shows
  \<open>null\<close> before; a post-edit value that cannot be resolved shows \<open>(undefined)\<close>; a
  \<open>remove\<close> at an absent path shows the recorded old value; a \<open>replace\<close> at an absent
  path shows \<open>(undefined)\<close>.\<close>

lemma diff_placeholder_examples:
  "generateDiff sampleBuiltins storeXs (fixOf Add ''/ys'' (HNum (Fin 3)) HUndefined) refXs
     = Inr \<lparr>before = ''null'', after = ''3'', dpath = ''/ys''\<rparr>"
  "generateDiff sampleBuiltins storeXs (fixOf Add ''/a/0/b'' (HNum (Fin 3)) HUndefined) refXs
     = Inr \<lparr>before = ''null'', after = ''(undefined)'', dpath = ''/a/0/b''\<rparr>"
  "generateDiff sampleBuiltins storeXs (fixOf Remove ''/zs'' HUndefined (HBool True)) refXs
     = Inr \<lparr>before = ''true'', after = ''(undefined)'', dpath = ''/zs''\<rparr>"
  "generateDiff sampleBuiltins storeXs (fixOf Replace ''/zs'' HUndefined HUndefined) refXs
     = Inr \<lparr>before = ''(undefined)'', after = ''(undefined)'', dpath = ''/zs''\<rparr>"
  by code_simp+

end
